theory Spec2Isabelle
  imports Main
begin

section \<open>Values loaded from runner.yaml\<close>

text \<open>
  The macro engine works on what \<^verbatim>\<open>yaml.safe_load\<close> returns: Python objects whose
  type is only known at run time. They are modelled by one datatype. Scalars are
  \<^verbatim>\<open>None\<close>, \<^verbatim>\<open>bool\<close>, \<^verbatim>\<open>int\<close> and \<^verbatim>\<open>str\<close>; a mapping is an association list in
  insertion order whose keys are strings (pairwise distinct in a loaded document).
  Strings are lists of characters with code points below 256.
\<close>

datatype yaml =
    YNone
  | YBool bool
  | YInt int
  | YStr string
  | YList "yaml list"
  | YDict "(string \<times> yaml) list"

text \<open>\<^verbatim>\<open>type(x).__name__\<close>\<close>

fun type_name :: "yaml \<Rightarrow> string" where
  "type_name YNone = ''NoneType''"
| "type_name (YBool _) = ''bool''"
| "type_name (YInt _) = ''int''"
| "type_name (YStr _) = ''str''"
| "type_name (YList _) = ''list''"
| "type_name (YDict _) = ''dict''"

text \<open>\<^verbatim>\<open>isinstance(x, str)\<close>, \<^verbatim>\<open>isinstance(x, list)\<close>, \<^verbatim>\<open>isinstance(x, dict)\<close>\<close>

fun is_str :: "yaml \<Rightarrow> bool" where
  "is_str (YStr _) = True"
| "is_str _ = False"

fun is_list :: "yaml \<Rightarrow> bool" where
  "is_list (YList _) = True"
| "is_list _ = False"

fun is_dict :: "yaml \<Rightarrow> bool" where
  "is_dict (YDict _) = True"
| "is_dict _ = False"

text \<open>
  Python's \<^verbatim>\<open>==\<close> on these values: structural, except that \<^verbatim>\<open>True == 1\<close> and
  \<^verbatim>\<open>False == 0\<close>, and that two mappings are equal when they have the same keys with
  equal values, in any order.
\<close>

fun py_eq :: "yaml \<Rightarrow> yaml \<Rightarrow> bool" where
  "py_eq YNone YNone = True"
| "py_eq (YBool a) (YBool b) = (a = b)"
| "py_eq (YBool a) (YInt j) = ((if a then 1 else 0) = j)"
| "py_eq (YInt i) (YBool b) = (i = (if b then 1 else 0))"
| "py_eq (YInt i) (YInt j) = (i = j)"
| "py_eq (YStr s) (YStr t) = (s = t)"
| "py_eq (YList xs) (YList ys) = list_all2 py_eq xs ys"
| "py_eq (YDict kvs) (YDict lws) =
     (set (map fst kvs) = set (map fst lws) \<and>
      list_all (\<lambda>(k, v). list_all (\<lambda>(l, w). if k = l then py_eq v w else True) lws) kvs)"
| "py_eq _ _ = False"

text \<open>
  A value that a loaded document can hold: the keys of every mapping are pairwise
  distinct.
\<close>

fun distinct_keys :: "yaml \<Rightarrow> bool" where
  "distinct_keys (YList xs) = list_all distinct_keys xs"
| "distinct_keys (YDict kvs) = (distinct (map fst kvs) \<and> list_all (\<lambda>(k, v). distinct_keys v) kvs)"
| "distinct_keys _ = True"

text \<open>
  Hashing: lists and mappings are unhashable; among the hashable values two are the
  same set element when they are \<^verbatim>\<open>==\<close>, so a boolean and the integer it equals share
  one key.
\<close>

fun hashable :: "yaml \<Rightarrow> bool" where
  "hashable (YList _) = False"
| "hashable (YDict _) = False"
| "hashable _ = True"

fun hkey :: "yaml \<Rightarrow> yaml" where
  "hkey (YBool b) = YInt (if b then 1 else 0)"
| "hkey v = v"

section \<open>Python string helpers\<close>

text \<open>\<^verbatim>\<open>sep.join(xs)\<close>\<close>

fun join :: "string \<Rightarrow> string list \<Rightarrow> string" where
  "join sep [] = []"
| "join sep [x] = x"
| "join sep (x # y # ys) = x @ sep @ join sep (y # ys)"

text \<open>\<^verbatim>\<open>str.isspace\<close> on one character, and \<^verbatim>\<open>str.strip()\<close>\<close>

definition py_isspace :: "char \<Rightarrow> bool" where
  "py_isspace c = (of_char c \<in> {9, 10, 11, 12, 13, 28, 29, 30, 31, 32, 133, 160 :: nat})"

definition strip :: "string \<Rightarrow> string" where
  "strip s = rev (dropWhile py_isspace (rev (dropWhile py_isspace s)))"

text \<open>\<^verbatim>\<open>n in s\<close> for two strings: \<open>n\<close> occurs in \<open>s\<close> as a contiguous run.\<close>

fun is_substring :: "string \<Rightarrow> string \<Rightarrow> bool" where
  "is_substring n [] = (n = [])"
| "is_substring n (c # s) = (take (length n) (c # s) = n \<or> is_substring n s)"

section \<open>Exceptions and messages\<close>

text \<open>
  The text of a \<^verbatim>\<open>ValueError\<close>: one constructor for each f-string that
  \<^verbatim>\<open>macros.py\<close> raises, with the interpolated values as arguments.
\<close>

datatype vmsg =
    MustBeDictOrList yaml string
      \<comment> \<open>Macro '{macro_name}' must be a dictionary or list, got {type}\<close>
  | MustHaveCommands yaml
      \<comment> \<open>Macro '{macro_name}' must have 'commands' key. Valid keys are: 'commands', 'env'\<close>
  | CommandsMustBeList yaml string
      \<comment> \<open>Macro '{macro_name}' commands must be a list, got {type}\<close>
  | EnvMustBeDict yaml string
      \<comment> \<open>Macro '{macro_name}' environment variables must be a dictionary, got {type}\<close>
  | EnvValueMustBeString string yaml string
      \<comment> \<open>Environment variable '{key}' in macro '{macro_name}' must be a string, got {type}\<close>
  | InvalidRoot
      \<comment> \<open>Invalid macro file format: root must be a dictionary\<close>
  | InvalidYAML string
      \<comment> \<open>Invalid YAML in macro file: {e}\<close>

text \<open>An exception that leaves \<^verbatim>\<open>execute_macro\<close> uncaught.\<close>

datatype exn =
    FileNotFoundError
  | OSError
  | ValueError vmsg
  | TypeError
  | KeyError
  | IndexError

text \<open>
  What the engine passes to \<^verbatim>\<open>logger.info\<close>, \<^verbatim>\<open>logger.error\<close> and
  \<^verbatim>\<open>logger.warn\<close>: one constructor for each f-string of \<^verbatim>\<open>executor.py\<close>, with the
  interpolated values as arguments. The chain of a circular call is kept as the text
  that follows \<^verbatim>\<open>Call stack: \<close>.
\<close>

datatype msg =
    ExecutingMacro yaml                 \<comment> \<open>Executing macro: {macro_name}\<close>
  | CircularCall yaml string
      \<comment> \<open>Circular macro call detected in macro '{macro_name}'. Call stack: {chain}\<close>
  | InvalidDefinition vmsg              \<comment> \<open>Invalid macro definition: {e}\<close>
  | InvalidFormat yaml                  \<comment> \<open>Invalid macro definition format for {macro_name}\<close>
  | CallingMacro yaml                   \<comment> \<open>Calling macro: {called_macro_name}\<close>
  | MacroNotFound yaml                  \<comment> \<open>Macro '{called_macro_name}' not found\<close>
  | SkippingMissingCall yaml            \<comment> \<open>Skipping missing macro call: {called_macro_name}\<close>
  | RunningCommand nat nat yaml
      \<comment> \<open>Running command [{command_index}/{total_commands}]: {command}\<close>
  | DryRunWould yaml                    \<comment> \<open>[DRY RUN] Would execute: {command}\<close>
  | CommandOutput string                \<comment> \<open>Command output:\textbackslash n{result.stdout}\<close>
  | CommandErrors string                \<comment> \<open>Command errors:\textbackslash n{result.stderr}\<close>
  | CommandFailed int yaml
      \<comment> \<open>Command failed with return code {returncode}: {command}\<close>
  | StoppingExecution                   \<comment> \<open>Stopping execution due to command failure.\<close>
  | ContinuingAfterFailure yaml         \<comment> \<open>Continuing after command failure: {command}\<close>
  | CommandCompleted yaml               \<comment> \<open>Command completed successfully: {command}\<close>
  | ErrorExecuting yaml string          \<comment> \<open>Error executing command '{command}': {e}\<close>
  | ContinuingAfterException yaml       \<comment> \<open>Continuing after exception for command: {command}\<close>
  | MacroCompleted yaml                 \<comment> \<open>Macro '{macro_name}' completed successfully\<close>

datatype level = INFO | ERROR | WARNING

text \<open>
  A line printed to the console (\<^verbatim>\<open>[ERROR]\<close> messages go to stderr, the rest to
  stdout), and an entry written to the log file.
\<close>

datatype cline =
    Print level msg
  | PrintCommand string     \<comment> \<open>[COMMAND] {command}\<close>
  | PrintOutput string      \<comment> \<open>[OUTPUT] {output}\<close>
  | PrintError string       \<comment> \<open>[ERROR] {error}\<close>

datatype fline =
    FileMsg level msg
  | FileBlock string        \<comment> \<open>the \<^verbatim>\<open>log_entry\<close> of \<^verbatim>\<open>log_command\<close>\<close>

section \<open>The collaborators and the state\<close>

text \<open>\<^verbatim>\<open>subprocess.run\<close> returns a completed process or raises.\<close>

datatype proc =
    Completed int string string   \<comment> \<open>returncode, stdout, stderr\<close>
  | Failed string                 \<comment> \<open>an \<^verbatim>\<open>Exception\<close> \<open>e\<close>, as \<^verbatim>\<open>str(e)\<close>\<close>

text \<open>What \<^verbatim>\<open>load_macros\<close> finds at \<^verbatim>\<open>runner.yaml\<close>.\<close>

datatype file_state =
    Missing               \<comment> \<open>\<^verbatim>\<open>os.path.exists\<close> is false\<close>
  | Unreadable            \<comment> \<open>\<^verbatim>\<open>open\<close> raises\<close>
  | Unparsable string     \<comment> \<open>\<^verbatim>\<open>yaml.safe_load\<close> raises \<^verbatim>\<open>YAMLError\<close>\<close>
  | Parsed yaml           \<comment> \<open>the loaded document\<close>

text \<open>
  Everything outside the engine, over a type \<open>'w\<close> of states of the outside world:
  running a command changes the world, the file and the clock are read from it.
  \<open>environ\<close> is \<^verbatim>\<open>os.environ\<close>, \<open>set_order\<close> the order in which Python iterates
  over a set (it follows the hashes of the elements, not the order of insertion), and
  \<open>repr_of\<close> the text \<^verbatim>\<open>str()\<close> gives for a value that is not a string.
\<close>

record 'w sys =
  run_cmd :: "yaml \<Rightarrow> (string \<rightharpoonup> yaml) \<Rightarrow> 'w \<Rightarrow> proc \<times> 'w"
  read_file :: "'w \<Rightarrow> file_state"
  now :: "'w \<Rightarrow> string"
  environ :: "string \<rightharpoonup> string"
  set_order :: "yaml set \<Rightarrow> yaml list"
  repr_of :: "yaml \<Rightarrow> string"

text \<open>The fields of \<^verbatim>\<open>Logger\<close> that the engine reads.\<close>

record logger =
  dry_run :: bool
  verbose :: bool
  file_handle :: bool     \<comment> \<open>\<^verbatim>\<open>self.file_handle\<close> is not \<^verbatim>\<open>None\<close>\<close>

text \<open>
  The state threaded through a run: the world, the set \<^verbatim>\<open>executed_macros\<close> shared
  by all nested calls (its elements kept as \<open>hkey\<close>), and what the logger has printed
  and written so far.
\<close>

record 'w state =
  world :: 'w
  executed_macros :: "yaml set"
  console :: "cline list"
  logfile :: "fline list"

text \<open>How a call of \<^verbatim>\<open>execute_macro\<close> ends.\<close>

datatype outcome =
    Returned
  | Exited int      \<comment> \<open>\<^verbatim>\<open>sys.exit(code)\<close>\<close>
  | Raised exn      \<comment> \<open>an uncaught exception\<close>

text \<open>\<^verbatim>\<open>str(x)\<close>\<close>

definition py_str :: "'w sys \<Rightarrow> yaml \<Rightarrow> string" where
  "py_str S v = (case v of YStr s \<Rightarrow> s | _ \<Rightarrow> repr_of S v)"

section \<open>logger.py\<close>

definition emit :: "logger \<Rightarrow> level \<Rightarrow> msg \<Rightarrow> 'w state \<Rightarrow> 'w state" where
  "emit lg l m st =
     st\<lparr>console := console st @ [Print l m],
        logfile := (if file_handle lg then logfile st @ [FileMsg l m] else logfile st)\<rparr>"

definition info :: "logger \<Rightarrow> msg \<Rightarrow> 'w state \<Rightarrow> 'w state" where
  "info lg m st = emit lg INFO m st"

definition error :: "logger \<Rightarrow> msg \<Rightarrow> 'w state \<Rightarrow> 'w state" where
  "error lg m st = emit lg ERROR m st"

definition warn :: "logger \<Rightarrow> msg \<Rightarrow> 'w state \<Rightarrow> 'w state" where
  "warn lg m st = emit lg WARNING m st"

text \<open>The \<^verbatim>\<open>log_entry\<close> that \<^verbatim>\<open>log_command\<close> builds, for a timestamp \<open>ts\<close>.\<close>

definition log_entry :: "string \<Rightarrow> string \<Rightarrow> string \<Rightarrow> string \<Rightarrow> string" where
  "log_entry ts command output err =
     (''['' @ ts @ ''] EXECUTED: '' @ command)
     @ (if output \<noteq> [] then [CHR 10] @ ''['' @ ts @ ''] OUTPUT: '' @ output else [])
     @ (if err \<noteq> [] then [CHR 10] @ ''['' @ ts @ ''] ERROR: '' @ err else [])"

definition log_command :: "'w sys \<Rightarrow> logger \<Rightarrow> yaml \<Rightarrow> string \<Rightarrow> string \<Rightarrow> 'w state \<Rightarrow> 'w state" where
  "log_command S lg command output err st =
     st\<lparr>console :=
          (if verbose lg
           then console st @ [PrintCommand (py_str S command)]
                  @ (if output \<noteq> [] then [PrintOutput output] else [])
                  @ (if err \<noteq> [] then [PrintError err] else [])
           else console st),
        logfile :=
          (if file_handle lg
           then logfile st @ [FileBlock (log_entry (now S (world st)) (py_str S command) output err)]
           else logfile st)\<rparr>"

section \<open>macros.py\<close>

definition load_macros :: "file_state \<Rightarrow> exn + yaml" where
  "load_macros f =
     (case f of
        Missing \<Rightarrow> Inl FileNotFoundError
      | Unreadable \<Rightarrow> Inl OSError
      | Unparsable e \<Rightarrow> Inl (ValueError (InvalidYAML e))
      | Parsed data \<Rightarrow>
          (case data of
             YNone \<Rightarrow> Inr (YDict [])
           | YDict kvs \<Rightarrow>
               (case map_of kvs ''macros'' of
                  Some m \<Rightarrow> Inr m
                | None \<Rightarrow> Inr data)
           | _ \<Rightarrow> Inl (ValueError InvalidRoot)))"

text \<open>
  \<open>Inl m\<close> is \<^verbatim>\<open>raise ValueError(m)\<close>. The loop over \<^verbatim>\<open>env.items()\<close> raises at the
  first value that is not a string.
\<close>

definition validate_macro_definition :: "yaml \<Rightarrow> yaml \<Rightarrow> vmsg + bool" where
  "validate_macro_definition macro_name macro_def =
     (if \<not> (is_dict macro_def \<or> is_list macro_def)
      then Inl (MustBeDictOrList macro_name (type_name macro_def))
      else
        (case macro_def of
           YDict kvs \<Rightarrow>
             (case map_of kvs ''commands'' of
                None \<Rightarrow> Inl (MustHaveCommands macro_name)
              | Some cmds \<Rightarrow>
                  if \<not> is_list cmds
                  then Inl (CommandsMustBeList macro_name (type_name cmds))
                  else
                    (case map_of kvs ''env'' of
                       None \<Rightarrow> Inr True
                     | Some env \<Rightarrow>
                         (case env of
                            YDict items \<Rightarrow>
                              (case find (\<lambda>(key, val). \<not> is_str val) items of
                                 Some (key, val) \<Rightarrow>
                                   Inl (EnvValueMustBeString key macro_name (type_name val))
                               | None \<Rightarrow> Inr True)
                          | _ \<Rightarrow> Inl (EnvMustBeDict macro_name (type_name env)))))
         | _ \<Rightarrow> Inr True))"

section \<open>Looking a called macro up\<close>

text \<open>\<^verbatim>\<open>x in c\<close>: membership raises \<^verbatim>\<open>TypeError\<close> where Python does.\<close>

definition py_in :: "yaml \<Rightarrow> yaml \<Rightarrow> exn + bool" where
  "py_in x c =
     (case c of
        YDict kvs \<Rightarrow>
          if \<not> hashable x then Inl TypeError
          else (case x of YStr n \<Rightarrow> Inr (n \<in> set (map fst kvs)) | _ \<Rightarrow> Inr False)
      | YList xs \<Rightarrow> Inr (list_ex (\<lambda>y. py_eq y x) xs)
      | YStr s \<Rightarrow> (case x of YStr n \<Rightarrow> Inr (is_substring n s) | _ \<Rightarrow> Inl TypeError)
      | _ \<Rightarrow> Inl TypeError)"

text \<open>\<^verbatim>\<open>xs[i]\<close> on a sequence: a negative index counts from the end.\<close>

definition seq_item :: "'a list \<Rightarrow> int \<Rightarrow> exn + 'a" where
  "seq_item xs i =
     (let j = (if i < 0 then i + int (length xs) else i)
      in if j < 0 \<or> int (length xs) \<le> j then Inl IndexError else Inr (xs ! nat j))"

text \<open>\<^verbatim>\<open>c[x]\<close>\<close>

definition py_getitem :: "yaml \<Rightarrow> yaml \<Rightarrow> exn + yaml" where
  "py_getitem c x =
     (case c of
        YDict kvs \<Rightarrow>
          if \<not> hashable x then Inl TypeError
          else (case x of
                  YStr n \<Rightarrow> (case map_of kvs n of Some v \<Rightarrow> Inr v | None \<Rightarrow> Inl KeyError)
                | _ \<Rightarrow> Inl KeyError)
      | YList xs \<Rightarrow>
          (case x of
             YInt i \<Rightarrow> seq_item xs i
           | YBool b \<Rightarrow> seq_item xs (if b then 1 else 0)
           | _ \<Rightarrow> Inl TypeError)
      | YStr s \<Rightarrow>
          (case x of
             YInt i \<Rightarrow> map_sum id (\<lambda>ch. YStr [ch]) (seq_item s i)
           | YBool b \<Rightarrow> map_sum id (\<lambda>ch. YStr [ch]) (seq_item s (if b then 1 else 0))
           | _ \<Rightarrow> Inl TypeError)
      | _ \<Rightarrow> Inl TypeError)"

text \<open>\<^verbatim>\<open>all_macros is None or called_macro_name not in all_macros\<close>\<close>

definition macro_missing :: "yaml \<Rightarrow> yaml \<Rightarrow> exn + bool" where
  "macro_missing all_macros called_macro_name =
     (if all_macros = YNone then Inr True
      else (case py_in called_macro_name all_macros of
              Inl e \<Rightarrow> Inl e
            | Inr b \<Rightarrow> Inr (\<not> b)))"

section \<open>executor.py\<close>

text \<open>
  \<^verbatim>\<open>isinstance(command, dict) and 'call' in command\<close>, and then \<^verbatim>\<open>command['call']\<close>:
  \<open>call_of\<close> is the called name of a Macro Call step, and \<open>None\<close> for any other step.
\<close>

definition call_of :: "yaml \<Rightarrow> yaml option" where
  "call_of command = (case command of YDict kvs \<Rightarrow> map_of kvs ''call'' | _ \<Rightarrow> None)"

definition is_call :: "yaml \<Rightarrow> bool" where
  "is_call command = (call_of command \<noteq> None)"

text \<open>\<^verbatim>\<open>xs.index(x)\<close>: the first position whose element equals \<open>x\<close>.\<close>

fun first_index :: "yaml \<Rightarrow> yaml list \<Rightarrow> nat option" where
  "first_index x [] = None"
| "first_index x (y # ys) = (if py_eq y x then Some 0 else map_option Suc (first_index x ys))"

text \<open>Lines 86-88: the list of the steps that are not calls, the index shown, the total.\<close>

definition actual_commands :: "yaml list \<Rightarrow> yaml list" where
  "actual_commands commands = filter (\<lambda>c. \<not> is_call c) commands"

definition command_index :: "yaml list \<Rightarrow> nat \<Rightarrow> yaml \<Rightarrow> nat" where
  "command_index commands i command =
     (case first_index command (actual_commands commands) of
        Some j \<Rightarrow> j + 1
      | None \<Rightarrow> i + 1)"

definition total_commands :: "yaml list \<Rightarrow> nat" where
  "total_commands commands = length (actual_commands commands)"

text \<open>\<^verbatim>\<open>env.update(macro_env)\<close> on a copy of \<^verbatim>\<open>os.environ\<close>\<close>

definition base_env :: "'w sys \<Rightarrow> (string \<rightharpoonup> yaml)" where
  "base_env S = (\<lambda>k. map_option YStr (environ S k))"

definition update_env :: "(string \<rightharpoonup> yaml) \<Rightarrow> (string \<times> yaml) list \<Rightarrow> (string \<rightharpoonup> yaml)" where
  "update_env env kvs = fold (\<lambda>(k, v) m. m(k \<mapsto> v)) kvs env"

text \<open>\<^verbatim>\<open>d.get(key, default)\<close>\<close>

definition dict_get :: "(string \<times> yaml) list \<Rightarrow> string \<Rightarrow> yaml \<Rightarrow> yaml" where
  "dict_get kvs key dflt = (case map_of kvs key of Some v \<Rightarrow> v | None \<Rightarrow> dflt)"

text \<open>
  The items of a mapping and the elements of a list. Past validation \<^verbatim>\<open>commands\<close>
  is a list and \<^verbatim>\<open>macro_env\<close> a mapping, so the other cases are never read.
\<close>

fun items_of :: "yaml \<Rightarrow> (string \<times> yaml) list" where
  "items_of (YDict kvs) = kvs"
| "items_of _ = []"

fun elems_of :: "yaml \<Rightarrow> yaml list" where
  "elems_of (YList xs) = xs"
| "elems_of _ = []"

text \<open>
  Lines 85-133: one step that is not a call. The result is \<open>Some code\<close> for
  \<^verbatim>\<open>sys.exit(code)\<close> and \<open>None\<close> when the loop goes on with the next step.
\<close>

definition exec_command ::
  "'w sys \<Rightarrow> logger \<Rightarrow> bool \<Rightarrow> (string \<rightharpoonup> yaml) \<Rightarrow> yaml list \<Rightarrow> nat \<Rightarrow> yaml \<Rightarrow> 'w state
     \<Rightarrow> int option \<times> 'w state" where
  "exec_command S lg continue_on_error env commands i command st =
     (let st1 = info lg (RunningCommand (command_index commands i command)
                           (total_commands commands) command) st
      in if dry_run lg then (None, info lg (DryRunWould command) st1)
         else
           (case run_cmd S command env (world st1) of
              (Completed returncode out err, w) \<Rightarrow>
                (let st2 = log_command S lg command
                             (if strip out \<noteq> [] then strip out else ''(no output)'')
                             (if strip err \<noteq> [] then strip err else [])
                             (st1\<lparr>world := w\<rparr>);
                     st3 = (if verbose lg
                            then (let st' = info lg (CommandOutput out) st2
                                  in if err \<noteq> [] then error lg (CommandErrors err) st' else st')
                            else st2)
                 in if returncode \<noteq> 0
                    then
                      (let st4 = error lg (CommandFailed returncode command) st3;
                           st5 = (if err \<noteq> [] then error lg (CommandErrors err) st4 else st4)
                       in if \<not> continue_on_error
                          then (Some returncode, error lg StoppingExecution st5)
                          else (None, warn lg (ContinuingAfterFailure command) st5))
                    else (None, info lg (CommandCompleted command) st3))
            | (Failed e, w) \<Rightarrow>
                (let st2 = log_command S lg command [] e (st1\<lparr>world := w\<rparr>);
                     st3 = error lg (ErrorExecuting command e) st2
                 in if \<not> continue_on_error
                    then (Some 1, st3)
                    else (None, warn lg (ContinuingAfterException command) st3))))"

text \<open>
  Lines 66-133: the loop over \<^verbatim>\<open>enumerate(commands)\<close>, from position \<open>i\<close> on. The
  recursive call of \<^verbatim>\<open>execute_macro\<close> is the parameter \<open>nested\<close>; a result \<open>None\<close> is
  a nested call that ran out of fuel.
\<close>

fun run_commands ::
  "'w sys \<Rightarrow> logger \<Rightarrow> bool \<Rightarrow> (yaml \<Rightarrow> yaml \<Rightarrow> 'w state \<Rightarrow> (outcome \<times> 'w state) option)
     \<Rightarrow> (string \<rightharpoonup> yaml) \<Rightarrow> yaml list \<Rightarrow> nat \<Rightarrow> yaml list \<Rightarrow> 'w state
     \<Rightarrow> (outcome \<times> 'w state) option" where
  "run_commands S lg continue_on_error nested env commands i [] st = Some (Returned, st)"
| "run_commands S lg continue_on_error nested env commands i (command # rest) st =
     (case call_of command of
        Some called_macro_name \<Rightarrow>
          (let st1 = info lg (CallingMacro called_macro_name) st
           in case load_macros (read_file S (world st1)) of
                Inl e \<Rightarrow> Some (Raised e, st1)
              | Inr all_macros \<Rightarrow>
                  (case macro_missing all_macros called_macro_name of
                     Inl e \<Rightarrow> Some (Raised e, st1)
                   | Inr True \<Rightarrow>
                       (let st2 = error lg (MacroNotFound called_macro_name) st1
                        in if \<not> continue_on_error then Some (Exited 1, st2)
                           else run_commands S lg continue_on_error nested env commands (Suc i) rest
                                  (warn lg (SkippingMissingCall called_macro_name) st2))
                   | Inr False \<Rightarrow>
                       (case py_getitem all_macros called_macro_name of
                          Inl e \<Rightarrow> Some (Raised e, st1)
                        | Inr called_macro_def \<Rightarrow>
                            (case nested called_macro_name called_macro_def st1 of
                               None \<Rightarrow> None
                             | Some (Returned, st2) \<Rightarrow>
                                 run_commands S lg continue_on_error nested env commands (Suc i) rest st2
                             | Some (how, st2) \<Rightarrow> Some (how, st2)))))
      | None \<Rightarrow>
          (case exec_command S lg continue_on_error env commands i command st of
             (Some code, st1) \<Rightarrow> Some (Exited code, st1)
           | (None, st1) \<Rightarrow>
               run_commands S lg continue_on_error nested env commands (Suc i) rest st1))"

text \<open>\<^verbatim>\<open>' -> '.join(executed_macros)\<close>: raises \<^verbatim>\<open>TypeError\<close> unless every element is a string.\<close>

fun strings_of :: "yaml list \<Rightarrow> string list option" where
  "strings_of [] = Some []"
| "strings_of (YStr s # vs) = map_option ((#) s) (strings_of vs)"
| "strings_of (_ # vs) = None"

definition call_chain :: "'w sys \<Rightarrow> yaml set \<Rightarrow> yaml \<Rightarrow> string option" where
  "call_chain S executed macro_name =
     map_option (\<lambda>names. join '' -> '' names @ '' -> '' @ py_str S macro_name)
       (strings_of (set_order S executed))"

text \<open>
  \<^verbatim>\<open>execute_macro\<close>. The first argument bounds the depth of nested calls: the result is
  \<open>None\<close> when the bound is reached, and otherwise says how the call ended and in which
  state. \<^verbatim>\<open>executed_macros\<close> is the field of the state.
\<close>

primrec execute_macro ::
  "nat \<Rightarrow> 'w sys \<Rightarrow> logger \<Rightarrow> bool \<Rightarrow> yaml \<Rightarrow> yaml \<Rightarrow> 'w state \<Rightarrow> (outcome \<times> 'w state) option" where
  "execute_macro 0 S lg continue_on_error macro_name macro_definition st = None"
| "execute_macro (Suc depth) S lg continue_on_error macro_name macro_definition st =
     (if \<not> hashable macro_name then Some (Raised TypeError, st)
      else if hkey macro_name \<in> executed_macros st
      then (case call_chain S (executed_macros st) macro_name of
              None \<Rightarrow> Some (Raised TypeError, st)
            | Some chain \<Rightarrow> Some (Exited 1, error lg (CircularCall macro_name chain) st))
      else
        (let st1 = info lg (ExecutingMacro macro_name)
                     (st\<lparr>executed_macros := insert (hkey macro_name) (executed_macros st)\<rparr>)
         in case validate_macro_definition macro_name macro_definition of
              Inl e \<Rightarrow> Some (Exited 1, error lg (InvalidDefinition e) st1)
            | Inr _ \<Rightarrow>
                (case (case macro_definition of
                         YDict kvs \<Rightarrow>
                           Some (dict_get kvs ''commands'' (YList []),
                                 update_env (base_env S) (items_of (dict_get kvs ''env'' (YDict []))))
                       | YList xs \<Rightarrow> Some (macro_definition, base_env S)
                       | _ \<Rightarrow> None) of
                   None \<Rightarrow> Some (Exited 1, error lg (InvalidFormat macro_name) st1)
                 | Some (commands, env) \<Rightarrow>
                     (case run_commands S lg continue_on_error
                             (execute_macro depth S lg continue_on_error)
                             env (elems_of commands) 0 (elems_of commands) st1 of
                        None \<Rightarrow> None
                      | Some (Returned, st2) \<Rightarrow>
                          if hkey macro_name \<in> executed_macros st2
                          then Some (Returned,
                                 info lg (MacroCompleted macro_name)
                                   (st2\<lparr>executed_macros := executed_macros st2 - {hkey macro_name}\<rparr>))
                          else Some (Raised KeyError, st2)
                      | Some (how, st2) \<Rightarrow> Some (how, st2)))))"

section \<open>Concrete collaborators\<close>

text \<open>
  The instances below run the engine against these. \<open>slot_order slots\<close> iterates over a
  set in the order of the list \<open>slots\<close>: a hash table whose slots hold these values in
  this order. \<open>demo_sys\<close> has a fixed file, an executor that answers by the command
  alone and appends the command and the value of \<^verbatim>\<open>X\<close> in the environment it was given
  to the world, a stopped clock and an empty \<^verbatim>\<open>os.environ\<close>.
\<close>

definition slot_order :: "yaml list \<Rightarrow> yaml set \<Rightarrow> yaml list" where
  "slot_order slots A = filter (\<lambda>v. v \<in> A) slots"

definition demo_sys ::
  "file_state \<Rightarrow> (yaml \<Rightarrow> proc) \<Rightarrow> yaml list \<Rightarrow> (yaml \<times> yaml option) list sys" where
  "demo_sys file behaviour slots =
     \<lparr>run_cmd = (\<lambda>c env w. (behaviour c, w @ [(c, env ''X'')])),
      read_file = (\<lambda>_. file),
      now = (\<lambda>_. ''2024-01-01 00:00:00''),
      environ = Map.empty,
      set_order = slot_order slots,
      repr_of = (\<lambda>_. ''?'')\<rparr>"

definition start :: "(yaml \<times> yaml option) list state" where
  "start = \<lparr>world = [], executed_macros = {}, console = [], logfile = []\<rparr>"

definition plain_logger :: logger where
  "plain_logger = \<lparr>dry_run = False, verbose = False, file_handle = False\<rparr>"

definition file_logger :: logger where
  "file_logger = \<lparr>dry_run = False, verbose = False, file_handle = True\<rparr>"

definition dry_logger :: logger where
  "dry_logger = \<lparr>dry_run = True, verbose = False, file_handle = False\<rparr>"

text \<open>
  A system whose world is the file together with the commands run so far: the command
  \<^verbatim>\<open>rm runner.yaml\<close> deletes the file, the command \<^verbatim>\<open>cp other.yaml runner.yaml\<close>
  replaces it by \<open>other\<close>, every other command leaves it alone.
\<close>

definition volatile_sys :: "file_state \<Rightarrow> (file_state \<times> yaml list) sys" where
  "volatile_sys other =
     \<lparr>run_cmd = (\<lambda>c env (file, ran).
                   (Completed 0 [] [],
                    (if c = YStr ''rm runner.yaml'' then Missing
                     else if c = YStr ''cp other.yaml runner.yaml'' then other
                     else file,
                     ran @ [c]))),
      read_file = fst,
      now = (\<lambda>_. ''2024-01-01 00:00:00''),
      environ = Map.empty,
      set_order = slot_order [],
      repr_of = (\<lambda>_. ''?'')\<rparr>"

section \<open>Notions used to state the properties\<close>

text \<open>
  The mapping from macro name to definition that the file holds, in the words of the
  specification of the definition source: the root of the document is this mapping, or
  a mapping whose key \<^verbatim>\<open>macros\<close> wraps it; an empty document, and an empty \<^verbatim>\<open>macros\<close>
  entry, define no macro. It is \<open>None\<close> where there is no file to read or the document
  has another shape. This is not read off \<^verbatim>\<open>load_macros\<close>: the properties below compare
  the two.
\<close>

definition document_macros :: "file_state \<Rightarrow> (string \<times> yaml) list option" where
  "document_macros file =
     (case file of
        Parsed YNone \<Rightarrow> Some []
      | Parsed (YDict kvs) \<Rightarrow>
          (case map_of kvs ''macros'' of
             None \<Rightarrow> Some kvs
           | Some (YDict macros) \<Rightarrow> Some macros
           | Some YNone \<Rightarrow> Some []
           | Some _ \<Rightarrow> None)
      | _ \<Rightarrow> None)"

text \<open>
  A command fails: the executor ran it and it exited with a non-zero code, or the
  executor could not run it. A step fails, in the sense of the failure policy: it is a
  command that fails, or it is a call \<^verbatim>\<open>{call: n}\<close> of a name that the mapping held by
  the file at that moment does not define. The value is the exit code that ends the run
  when continue-on-error is off: the command's own code, and 1 otherwise.
\<close>

definition command_failure :: "'w sys \<Rightarrow> logger \<Rightarrow> (string \<rightharpoonup> yaml) \<Rightarrow> yaml \<Rightarrow> 'w state \<Rightarrow> int option" where
  "command_failure S lg env command st =
     (if dry_run lg then None
      else (case fst (run_cmd S command env (world st)) of
              Completed returncode out err \<Rightarrow> if returncode \<noteq> 0 then Some returncode else None
            | Failed e \<Rightarrow> Some 1))"

definition failure_code :: "'w sys \<Rightarrow> logger \<Rightarrow> (string \<rightharpoonup> yaml) \<Rightarrow> yaml \<Rightarrow> 'w state \<Rightarrow> int option" where
  "failure_code S lg env command st =
     (case command of
        YDict kvs \<Rightarrow>
          (case map_of kvs ''call'' of
             None \<Rightarrow> command_failure S lg env command st
           | Some (YStr n) \<Rightarrow>
               (case document_macros (read_file S (world st)) of
                  Some macros \<Rightarrow> if map_of macros n = None then Some 1 else None
                | None \<Rightarrow> None)
           | Some _ \<Rightarrow> None)
      | _ \<Rightarrow> command_failure S lg env command st)"

text \<open>
  The state the engine is in once it has dealt with a failing step: for a missing macro
  what it has reported, for a command what \<open>exec_command\<close> leaves.
\<close>

definition after_step ::
  "'w sys \<Rightarrow> logger \<Rightarrow> bool \<Rightarrow> (string \<rightharpoonup> yaml) \<Rightarrow> yaml list \<Rightarrow> nat \<Rightarrow> yaml \<Rightarrow> 'w state \<Rightarrow> 'w state" where
  "after_step S lg coe env commands i command st =
     (case call_of command of
        Some called \<Rightarrow>
          (let st2 = error lg (MacroNotFound called) (info lg (CallingMacro called) st)
           in if coe then warn lg (SkippingMissingCall called) st2 else st2)
      | None \<Rightarrow> snd (exec_command S lg coe env commands i command st))"

text \<open>
  A definition is malformed: it is neither a sequence nor a structured object; or it is a
  structured object and \<^verbatim>\<open>commands\<close> is missing or not a sequence, or \<^verbatim>\<open>env\<close> is present
  and not a mapping, or some value of \<^verbatim>\<open>env\<close> is not a string.
\<close>

definition malformed :: "yaml \<Rightarrow> bool" where
  "malformed d =
     (case d of
        YList steps \<Rightarrow> False
      | YDict kvs \<Rightarrow>
          (case map_of kvs ''commands'' of None \<Rightarrow> True | Some cmds \<Rightarrow> \<not> is_list cmds)
          \<or> (case map_of kvs ''env'' of
                None \<Rightarrow> False
              | Some env \<Rightarrow>
                  (if is_dict env then list_ex (\<lambda>(key, val). \<not> is_str val) (items_of env)
                   else True))
      | _ \<Rightarrow> True)"

text \<open>A console line that reports a command that failed or could not be run.\<close>

fun reports_failure :: "cline \<Rightarrow> bool" where
  "reports_failure (Print l (CommandFailed rc c)) = True"
| "reports_failure (Print l StoppingExecution) = True"
| "reports_failure (Print l (ContinuingAfterFailure c)) = True"
| "reports_failure (Print l (ErrorExecuting c e)) = True"
| "reports_failure (Print l (ContinuingAfterException c)) = True"
| "reports_failure _ = False"

text \<open>
  Two relations between an earlier and a later state: the world is the same and no
  failure report has been added; the console has only been appended to.
\<close>

definition quiet :: "'w state \<Rightarrow> 'w state \<Rightarrow> bool" where
  "quiet st st' = (world st' = world st \<and>
     list_ex reports_failure (console st') = list_ex reports_failure (console st))"

definition grows :: "'w state \<Rightarrow> 'w state \<Rightarrow> bool" where
  "grows st st' = (take (length (console st)) (console st') = console st)"

text \<open>
  Reading a log block: its lines (\<^verbatim>\<open>text.split('\n')\<close>), the prefix
  \<^verbatim>\<open>[timestamp] TAG: \<close> that \<^verbatim>\<open>log_command\<close> puts before each part, a line that starts
  with this prefix, a text that has such a line; and the blocks among the entries of the
  log file.
\<close>

fun split_lines :: "string \<Rightarrow> string list" where
  "split_lines [] = [[]]"
| "split_lines (c # s) =
     (if c = CHR 10 then [] # split_lines s
      else (case split_lines s of l # ls \<Rightarrow> (c # l) # ls | [] \<Rightarrow> [[c]]))"

definition line_prefix :: "string \<Rightarrow> string \<Rightarrow> string" where
  "line_prefix ts tag = ''['' @ ts @ ''] '' @ tag @ '': ''"

definition tagged :: "string \<Rightarrow> string \<Rightarrow> string \<Rightarrow> bool" where
  "tagged ts tag line = (take (length (line_prefix ts tag)) line = line_prefix ts tag)"

definition has_line :: "string \<Rightarrow> string \<Rightarrow> string \<Rightarrow> bool" where
  "has_line ts tag text = list_ex (tagged ts tag) (split_lines text)"

fun blocks :: "fline list \<Rightarrow> string list" where
  "blocks [] = []"
| "blocks (FileBlock b # fs) = b # blocks fs"
| "blocks (FileMsg l m # fs) = blocks fs"

text \<open>
  The state of a call after lines 38-40 (the name is on the stack, \<^verbatim>\<open>Executing macro\<close> is
  printed), and the steps and the environment that lines 50-61 take from a definition.
\<close>

definition entered :: "logger \<Rightarrow> yaml \<Rightarrow> 'w state \<Rightarrow> 'w state" where
  "entered lg macro_name st =
     info lg (ExecutingMacro macro_name)
       (st\<lparr>executed_macros := insert (hkey macro_name) (executed_macros st)\<rparr>)"

fun steps_of :: "yaml \<Rightarrow> yaml list" where
  "steps_of (YDict kvs) = elems_of (dict_get kvs ''commands'' (YList []))"
| "steps_of d = elems_of d"

fun env_of :: "'w sys \<Rightarrow> yaml \<Rightarrow> (string \<rightharpoonup> yaml)" where
  "env_of S (YDict kvs) = update_env (base_env S) (items_of (dict_get kvs ''env'' (YDict [])))"
| "env_of S d = base_env S"

section \<open>Properties\<close>

subsection \<open>The logger leaves the world and the call stack alone\<close>

lemma emit_fields [simp]:
  "world (emit lg l m st) = world st"
  "executed_macros (emit lg l m st) = executed_macros st"
  "console (emit lg l m st) = console st @ [Print l m]"
  by (simp_all add: emit_def)

lemma info_fields [simp]:
  "world (info lg m st) = world st"
  "executed_macros (info lg m st) = executed_macros st"
  "console (info lg m st) = console st @ [Print INFO m]"
  by (simp_all add: info_def)

lemma error_fields [simp]:
  "world (error lg m st) = world st"
  "executed_macros (error lg m st) = executed_macros st"
  "console (error lg m st) = console st @ [Print ERROR m]"
  by (simp_all add: error_def)

lemma warn_fields [simp]:
  "world (warn lg m st) = world st"
  "executed_macros (warn lg m st) = executed_macros st"
  "console (warn lg m st) = console st @ [Print WARNING m]"
  by (simp_all add: warn_def)

lemma log_command_fields [simp]:
  "world (log_command S lg c out err st) = world st"
  "executed_macros (log_command S lg c out err st) = executed_macros st"
  by (simp_all add: log_command_def)

subsection \<open>The bound on the depth\<close>

text \<open>
  The first argument of \<open>execute_macro\<close> only bounds the depth of nested calls: a result
  obtained under one bound is the result under every larger bound.
\<close>

lemma run_commands_mono:
  assumes nested: "\<And>c d s r. nested c d s = Some r \<Longrightarrow> nested' c d s = Some r"
  shows "run_commands S lg coe nested env commands i steps st = Some r
         \<Longrightarrow> run_commands S lg coe nested' env commands i steps st = Some r"
proof (induction steps arbitrary: i st coe)
  case Nil
  then show ?case by simp
next
  case (Cons command rest)
  show ?case
  proof (cases "call_of command")
    case None
    with Cons.prems show ?thesis
      by (auto split: prod.splits option.splits intro: Cons.IH)
  next
    case (Some c)
    let ?st1 = "info lg (CallingMacro c) st"
    show ?thesis
    proof (cases "load_macros (read_file S (world st))")
      case (Inl e)
      with Cons.prems Some show ?thesis by simp
    next
      case (Inr all_macros)
      show ?thesis
      proof (cases "macro_missing all_macros c")
        case (Inl e)
        with Cons.prems Some Inr show ?thesis by simp
      next
        case missing: (Inr b)
        show ?thesis
        proof (cases b)
          case True
          with Cons.prems Some Inr missing show ?thesis
            by (auto simp: Let_def split: if_splits intro: Cons.IH)
        next
          case False
          show ?thesis
          proof (cases "py_getitem all_macros c")
            case (Inl e)
            with Cons.prems Some Inr missing False show ?thesis by simp
          next
            case found: (Inr def)
            show ?thesis
            proof (cases "nested c def ?st1")
              case None
              with Cons.prems Some Inr missing False found show ?thesis by simp
            next
              case res: (Some x)
              then have res': "nested' c def ?st1 = Some x" by (rule nested)
              obtain how st2 where x: "x = (how, st2)" by (cases x)
              from Cons.prems Some Inr missing False found res res' x show ?thesis
                by (cases how) (auto intro: Cons.IH)
            qed
          qed
        qed
      qed
    qed
  qed
qed

lemma execute_macro_mono:
  "execute_macro depth S lg coe name d st = Some r
   \<Longrightarrow> execute_macro (Suc depth) S lg coe name d st = Some r"
proof (induction depth arbitrary: name d st r)
  case 0
  then show ?case by simp
next
  case (Suc depth)
  have nested: "\<And>c d s r. execute_macro depth S lg coe c d s = Some r
                  \<Longrightarrow> execute_macro (Suc depth) S lg coe c d s = Some r"
    using Suc.IH by blast
  have rc: "run_commands S lg coe (execute_macro (Suc depth) S lg coe) env commands i steps s = Some r"
    if "run_commands S lg coe (execute_macro depth S lg coe) env commands i steps s = Some r"
    for env commands i steps s r
    using run_commands_mono [where nested = "execute_macro depth S lg coe"
        and nested' = "execute_macro (Suc depth) S lg coe", OF nested that] .
  from Suc.prems show ?case
    apply (subst execute_macro.simps)
    apply (subst (asm) execute_macro.simps)
    apply (auto simp: Let_def
             split: if_splits option.splits sum.splits prod.splits outcome.splits yaml.splits
             dest!: rc)
    done
qed

lemma execute_macro_enough_fuel:
  "execute_macro depth S lg coe name d st = Some r \<Longrightarrow> depth \<le> depth'
   \<Longrightarrow> execute_macro depth' S lg coe name d st = Some r"
proof (induction "depth' - depth" arbitrary: depth')
  case 0
  then show ?case by simp
next
  case (Suc k)
  then obtain m where m: "depth' = Suc m" "depth \<le> m" "k = m - depth"
    by (cases depth') auto
  from Suc.hyps(1) [OF m(3) Suc.prems(1) m(2)] m(1) show ?case
    by (simp only: execute_macro_mono)
qed

subsection \<open>The index of a command\<close>

text \<open>
  \<^verbatim>\<open>command in actual_commands\<close> always holds for the step at hand, so the index shown
  is one more than the position of the first command equal to it; the alternative
  \<^verbatim>\<open>i+1\<close> is never taken.
\<close>

lemma py_eq_refl: "distinct_keys v \<Longrightarrow> py_eq v v"
proof (induction v)
  case (YList xs)
  then show ?case
    by (auto simp: list_all_iff list_all2_conv_all_nth)
next
  case (YDict kvs)
  have "py_eq v w" if "(k, v) \<in> set kvs" "(k, w) \<in> set kvs" for k v w
  proof -
    from YDict.prems have "distinct (map fst kvs)" by simp
    with that have "v = w" by (meson eq_key_imp_eq_value)
    moreover from YDict.prems that have "distinct_keys v" by (auto simp: list_all_iff)
    ultimately show ?thesis using YDict.IH that(1) by force
  qed
  then show ?case
    by (auto simp: list_all_iff)
qed simp_all

lemma first_index_finds:
  "list_ex (\<lambda>y. py_eq y x) xs \<Longrightarrow> first_index x xs \<noteq> None"
  by (induction xs) auto

lemma command_index_found:
  assumes "command \<in> set commands" "\<not> is_call command" "distinct_keys command"
  shows "\<exists>j. first_index command (actual_commands commands) = Some j
             \<and> command_index commands i command = j + 1"
proof -
  from assms have "list_ex (\<lambda>y. py_eq y command) (actual_commands commands)"
    by (auto simp: actual_commands_def list_ex_iff intro: py_eq_refl)
  then show ?thesis
    using first_index_finds by (fastforce simp: command_index_def)
qed

subsection \<open>The call stack\<close>

lemma exec_command_stack:
  "executed_macros (snd (exec_command S lg coe env commands i command st)) = executed_macros st"
  by (simp add: exec_command_def Let_def split: prod.splits proc.splits)

lemma run_commands_stack:
  assumes nested:
    "\<And>c d s s'. nested c d s = Some (Returned, s') \<Longrightarrow> executed_macros s' = executed_macros s"
  shows "run_commands S lg coe nested env commands i steps st = Some (Returned, st')
         \<Longrightarrow> executed_macros st' = executed_macros st"
proof (induction steps arbitrary: i st)
  case Nil
  then show ?case by simp
next
  case (Cons command rest)
  show ?case
  proof (cases "call_of command")
    case None
    obtain r st1 where ec: "exec_command S lg coe env commands i command st = (r, st1)"
      by (cases "exec_command S lg coe env commands i command st")
    have s1: "executed_macros st1 = executed_macros st"
      using exec_command_stack [of S lg coe env commands i command st] ec by simp
    from Cons.prems None ec
    have "r = None \<and> run_commands S lg coe nested env commands (Suc i) rest st1 = Some (Returned, st')"
      by (cases r) simp_all
    then show ?thesis using Cons.IH [of "Suc i" st1] s1 by simp
  next
    case (Some c)
    let ?st1 = "info lg (CallingMacro c) st"
    from Cons.prems Some consider
        (skip) "run_commands S lg coe nested env commands (Suc i) rest
                  (warn lg (SkippingMissingCall c) (error lg (MacroNotFound c) ?st1))
                = Some (Returned, st')"
      | (call) def st2 where "nested c def ?st1 = Some (Returned, st2)"
          "run_commands S lg coe nested env commands (Suc i) rest st2 = Some (Returned, st')"
      by (auto simp: Let_def
               split: sum.splits bool.splits if_splits option.splits prod.splits outcome.splits)
    then show ?thesis
    proof cases
      case skip
      then show ?thesis using Cons.IH by fastforce
    next
      case call
      then show ?thesis using Cons.IH nested by fastforce
    qed
  qed
qed

text \<open>
  C6. \<^verbatim>\<open>executed_macros\<close> is a Python set, so a name is in it at most once; the engine
  adds a name only when it is not yet there (a call whose name is on the stack never
  returns). Whenever \<^verbatim>\<open>execute_macro\<close> returns, with either value of continue-on-error and
  whatever was skipped on the way, the call stack is the one the call started with.
\<close>

theorem call_stack_restored:
  "execute_macro depth S lg coe name d st = Some (Returned, st')
   \<Longrightarrow> executed_macros st' = executed_macros st \<and> hkey name \<notin> executed_macros st"
proof (induction depth arbitrary: name d st st')
  case 0
  then show ?case by simp
next
  case (Suc depth)
  have nested: "\<And>c d s s'. execute_macro depth S lg coe c d s = Some (Returned, s')
                  \<Longrightarrow> executed_macros s' = executed_macros s"
    using Suc.IH by blast
  show ?case
  proof (cases "hashable name \<and> hkey name \<notin> executed_macros st")
    case False
    with Suc.prems show ?thesis
      by (auto split: if_splits option.splits)
  next
    case True
    define st1 where "st1 = info lg (ExecutingMacro name)
                     (st\<lparr>executed_macros := insert (hkey name) (executed_macros st)\<rparr>)"
    have st1: "executed_macros st1 = insert (hkey name) (executed_macros st)"
      by (simp add: st1_def)
    from Suc.prems True obtain env commands st2 where
      run: "run_commands S lg coe (execute_macro depth S lg coe) env commands 0 commands st1
              = Some (Returned, st2)"
      and fin: "st' = info lg (MacroCompleted name)
                        (st2\<lparr>executed_macros := executed_macros st2 - {hkey name}\<rparr>)"
      by (auto simp: Let_def st1_def
               split: if_splits option.splits sum.splits prod.splits outcome.splits yaml.splits)
    have "executed_macros st2 = executed_macros st1"
      using run_commands_stack [where nested = "execute_macro depth S lg coe", OF nested run] .
    with st1 fin True show ?thesis by auto
  qed
qed

text \<open>
  An instance: \<^verbatim>\<open>a\<close> calls a macro that does not exist (skipped under continue-on-error),
  calls \<^verbatim>\<open>b\<close>, and runs a command that fails; the call returns.
\<close>

theorem call_stack_restored_witness:
  "\<exists>st'. execute_macro 2
            (demo_sys (Parsed (YDict [(''b'', YList [YStr ''true''])]))
               (\<lambda>c. if c = YStr ''false'' then Completed 1 [] [] else Completed 0 [] []) [])
            plain_logger True (YStr ''a'')
            (YList [YDict [(''call'', YStr ''gone'')], YDict [(''call'', YStr ''b'')], YStr ''false''])
            start = Some (Returned, st')
         \<and> world st' = [(YStr ''true'', None), (YStr ''false'', None)]
         \<and> executed_macros st' = executed_macros start
         \<and> hkey (YStr ''a'') \<notin> executed_macros start"
proof -
  have run: "execute_macro 2
            (demo_sys (Parsed (YDict [(''b'', YList [YStr ''true''])]))
               (\<lambda>c. if c = YStr ''false'' then Completed 1 [] [] else Completed 0 [] []) [])
            plain_logger True (YStr ''a'')
            (YList [YDict [(''call'', YStr ''gone'')], YDict [(''call'', YStr ''b'')], YStr ''false''])
            start
        = Some (Returned,
            \<lparr>world = [(YStr ''true'', None), (YStr ''false'', None)],
             executed_macros = {},
             console =
               [Print INFO (ExecutingMacro (YStr ''a'')),
                Print INFO (CallingMacro (YStr ''gone'')),
                Print ERROR (MacroNotFound (YStr ''gone'')),
                Print WARNING (SkippingMissingCall (YStr ''gone'')),
                Print INFO (CallingMacro (YStr ''b'')),
                Print INFO (ExecutingMacro (YStr ''b'')),
                Print INFO (RunningCommand 1 1 (YStr ''true'')),
                Print INFO (CommandCompleted (YStr ''true'')),
                Print INFO (MacroCompleted (YStr ''b'')),
                Print INFO (RunningCommand 1 1 (YStr ''false'')),
                Print ERROR (CommandFailed 1 (YStr ''false'')),
                Print WARNING (ContinuingAfterFailure (YStr ''false'')),
                Print INFO (MacroCompleted (YStr ''a''))],
             logfile = []\<rparr>)"
    by code_simp
  from call_stack_restored [OF run] run show ?thesis by simp
qed

subsection \<open>Dry runs\<close>

lemma py_str_run_cmd [simp]: "py_str (S\<lparr>run_cmd := f\<rparr>) = py_str S"
  by (simp add: py_str_def fun_eq_iff split: yaml.splits)

lemma base_env_run_cmd [simp]: "base_env (S\<lparr>run_cmd := f\<rparr>) = base_env S"
  by (simp add: base_env_def)

lemma call_chain_run_cmd [simp]: "call_chain (S\<lparr>run_cmd := f\<rparr>) = call_chain S"
  by (simp add: call_chain_def fun_eq_iff)

lemma exec_command_dry:
  assumes "dry_run lg"
  shows "exec_command (S\<lparr>run_cmd := f\<rparr>) lg coe env commands i command st
           = exec_command S lg coe env commands i command st"
    and "fst (exec_command S lg coe env commands i command st) = None"
    and "world (snd (exec_command S lg coe env commands i command st)) = world st"
    and "list_ex reports_failure (console (snd (exec_command S lg coe env commands i command st)))
           = list_ex reports_failure (console st)"
  using assms by (simp_all add: exec_command_def Let_def)

lemma run_commands_dry_same:
  assumes "dry_run lg"
  shows "run_commands (S\<lparr>run_cmd := f\<rparr>) lg coe nested env commands i steps st
           = run_commands S lg coe nested env commands i steps st"
proof (induction steps arbitrary: i st coe)
  case Nil
  show ?case by simp
next
  case (Cons command rest)
  show ?case
  proof (cases "call_of command")
    case None
    then show ?thesis
      by (simp add: Cons.IH exec_command_dry(1) [OF assms(1)] cong: prod.case_cong option.case_cong)
  next
    case (Some c)
    then show ?thesis
      by (simp add: Cons.IH Let_def
               split: sum.splits bool.splits option.splits prod.splits outcome.splits)
  qed
qed

lemma quiet_refl [simp]: "quiet st st"
  by (simp add: quiet_def)

lemma quiet_trans: "quiet a b \<Longrightarrow> quiet b c \<Longrightarrow> quiet a c"
  by (simp add: quiet_def)

lemma quiet_log [simp]:
  "\<not> reports_failure (Print INFO m) \<Longrightarrow> quiet st (info lg m st')  = quiet st st'"
  "\<not> reports_failure (Print ERROR m) \<Longrightarrow> quiet st (error lg m st') = quiet st st'"
  "\<not> reports_failure (Print WARNING m) \<Longrightarrow> quiet st (warn lg m st') = quiet st st'"
  "\<not> reports_failure (Print INFO m) \<Longrightarrow> quiet (info lg m st) st' = quiet st st'"
  "\<not> reports_failure (Print ERROR m) \<Longrightarrow> quiet (error lg m st) st' = quiet st st'"
  "\<not> reports_failure (Print WARNING m) \<Longrightarrow> quiet (warn lg m st) st' = quiet st st'"
  by (simp_all add: quiet_def)

lemma run_commands_dry_quiet:
  assumes "dry_run lg"
    and nested: "\<And>c d s how s'. nested c d s = Some (how, s') \<Longrightarrow> quiet s s'"
  shows "run_commands S lg coe nested env commands i steps st = Some (how, st')
         \<Longrightarrow> quiet st st'"
proof (induction steps arbitrary: i st)
  case Nil
  then show ?case by simp
next
  case (Cons command rest)
  show ?case
  proof (cases "call_of command")
    case None
    obtain r st1 where ec: "exec_command S lg coe env commands i command st = (r, st1)"
      by (cases "exec_command S lg coe env commands i command st")
    have q: "r = None" "quiet st st1"
      using exec_command_dry(2,3,4) [OF assms(1), of S coe env commands i command st] ec
      by (simp_all add: quiet_def)
    from Cons.prems None ec q
    have "run_commands S lg coe nested env commands (Suc i) rest st1 = Some (how, st')"
      by simp
    then show ?thesis using Cons.IH [of "Suc i" st1] q quiet_trans by blast
  next
    case (Some c)
    let ?st1 = "info lg (CallingMacro c) st"
    have q1: "quiet st ?st1" by simp
    from Cons.prems Some consider
        (stop) "quiet st st'"
      | (skip) "run_commands S lg coe nested env commands (Suc i) rest
                  (warn lg (SkippingMissingCall c) (error lg (MacroNotFound c) ?st1))
                = Some (how, st')"
      | (call) def st2 where "nested c def ?st1 = Some (Returned, st2)"
          "run_commands S lg coe nested env commands (Suc i) rest st2 = Some (how, st')"
      | (abort) def how' where "nested c def ?st1 = Some (how', st')"
      by (auto simp: Let_def
               split: sum.splits bool.splits if_splits option.splits prod.splits outcome.splits)
    then show ?thesis
    proof cases
      case stop
      then show ?thesis .
    next
      case skip
      from Cons.IH [OF skip] show ?thesis by simp
    next
      case call
      from nested [OF call(1)] Cons.IH [OF call(2)] q1 show ?thesis
        using quiet_trans by blast
    next
      case abort
      from nested [OF abort] q1 show ?thesis using quiet_trans by blast
    qed
  qed
qed

text \<open>
  C8. With \<^verbatim>\<open>logger.dry_run\<close> set, the result of \<^verbatim>\<open>execute_macro\<close> is the same whatever
  the command executor is (so it is never called), the world is left as it was, and no
  report of a failed command is printed, with either value of continue-on-error.
\<close>

theorem dry_run_never_executes:
  assumes "dry_run lg"
  shows "execute_macro depth (S\<lparr>run_cmd := f\<rparr>) lg coe name d st
           = execute_macro depth S lg coe name d st
         \<and> (\<forall>how st'. execute_macro depth S lg coe name d st = Some (how, st')
               \<longrightarrow> world st' = world st
                 \<and> list_ex reports_failure (console st') = list_ex reports_failure (console st))"
proof -
  have same: "execute_macro depth (S\<lparr>run_cmd := f\<rparr>) lg coe name d st
           = execute_macro depth S lg coe name d st" for name d st
  proof (induction depth arbitrary: name d st)
    case 0
    show ?case by simp
  next
    case (Suc depth)
    have rc_same: "run_commands (S\<lparr>run_cmd := f\<rparr>) lg coe (execute_macro depth (S\<lparr>run_cmd := f\<rparr>) lg coe)
            env commands i steps s
          = run_commands S lg coe (execute_macro depth S lg coe) env commands i steps s"
      for env commands i steps s
    proof -
      have "execute_macro depth (S\<lparr>run_cmd := f\<rparr>) lg coe = execute_macro depth S lg coe"
        using Suc.IH by (intro ext)
      then show ?thesis using run_commands_dry_same [OF assms] by simp
    qed
    show ?case
      by (simp add: rc_same
               cong: prod.case_cong option.case_cong sum.case_cong yaml.case_cong outcome.case_cong)
  qed
  have quiet: "execute_macro depth S lg coe name d st = Some (how, st') \<Longrightarrow> quiet st st'"
    for name d st how st'
  proof (induction depth arbitrary: name d st how st')
    case 0
    then show ?case by simp
  next
    case (Suc depth)
    have nested: "\<And>c d s how s'. execute_macro depth S lg coe c d s = Some (how, s') \<Longrightarrow> quiet s s'"
      using Suc.IH by blast
    have rc: "quiet s s'"
      if "run_commands S lg coe (execute_macro depth S lg coe) env commands i steps s = Some (how, s')"
      for env commands i steps s how s'
      using run_commands_dry_quiet [where nested = "execute_macro depth S lg coe", OF assms nested that] .
    define st1 where "st1 = info lg (ExecutingMacro name)
                     (st\<lparr>executed_macros := insert (hkey name) (executed_macros st)\<rparr>)"
    have q1: "quiet st st1" by (simp add: st1_def quiet_def)
    from Suc.prems consider
        (stop) "quiet st st'"
      | (run) env commands st2 where
          "run_commands S lg coe (execute_macro depth S lg coe) env commands 0 commands st1
              = Some (Returned, st2)"
          "st' = info lg (MacroCompleted name)
                        (st2\<lparr>executed_macros := executed_macros st2 - {hkey name}\<rparr>) \<or> st' = st2"
      | (abort) env commands how' where
          "run_commands S lg coe (execute_macro depth S lg coe) env commands 0 commands st1
              = Some (how', st')"
      by (auto simp: Let_def st1_def quiet_def
               split: if_splits option.splits sum.splits prod.splits outcome.splits yaml.splits)
    then show ?case
    proof cases
      case stop
      then show ?thesis .
    next
      case run
      from rc [OF run(1)] have "quiet st1 st2" .
      with q1 have "quiet st st2" using quiet_trans by blast
      with run(2) show ?thesis by (auto simp: quiet_def)
    next
      case abort
      from rc [OF abort] q1 show ?thesis using quiet_trans by blast
    qed
  qed
  show ?thesis using same quiet by (auto simp: quiet_def)
qed

text \<open>
  An instance: a dry run of \<^verbatim>\<open>a\<close>, which runs a command and calls \<^verbatim>\<open>b\<close>, with
  continue-on-error off, once with an executor that always raises and once with one that
  always succeeds.
\<close>

theorem dry_run_never_executes_witness:
  "dry_run dry_logger
   \<and> execute_macro 2
        (demo_sys (Parsed (YDict [(''b'', YList [YStr ''make test''])])) (\<lambda>_. Completed 0 [] []) []
           \<lparr>run_cmd := (\<lambda>c env w. (Failed ''no shell'', w @ [(c, None)]))\<rparr>)
        dry_logger False (YStr ''a'')
        (YList [YStr ''make build'', YDict [(''call'', YStr ''b'')]]) start
     = execute_macro 2
        (demo_sys (Parsed (YDict [(''b'', YList [YStr ''make test''])])) (\<lambda>_. Completed 0 [] []) [])
        dry_logger False (YStr ''a'')
        (YList [YStr ''make build'', YDict [(''call'', YStr ''b'')]]) start
   \<and> (\<exists>st'. execute_macro 2
        (demo_sys (Parsed (YDict [(''b'', YList [YStr ''make test''])])) (\<lambda>_. Completed 0 [] []) [])
        dry_logger False (YStr ''a'')
        (YList [YStr ''make build'', YDict [(''call'', YStr ''b'')]]) start = Some (Returned, st')
      \<and> world st' = world start
      \<and> list_ex reports_failure (console st') = list_ex reports_failure (console start))"
proof -
  let ?S = "demo_sys (Parsed (YDict [(''b'', YList [YStr ''make test''])])) (\<lambda>_. Completed 0 [] []) []"
  let ?d = "YList [YStr ''make build'', YDict [(''call'', YStr ''b'')]]"
  have d: "dry_run dry_logger" by (simp add: dry_logger_def)
  have "map_option fst (execute_macro 2 ?S dry_logger False (YStr ''a'') ?d start) = Some Returned"
    by code_simp
  then obtain st' where run: "execute_macro 2 ?S dry_logger False (YStr ''a'') ?d start = Some (Returned, st')"
    by auto
  from dry_run_never_executes [OF d, where depth = 2 and S = ?S
         and f = "\<lambda>c env w. (Failed ''no shell'', w @ [(c, None)])"
         and coe = False and name = "YStr ''a''" and d = ?d and st = start] d run
  show ?thesis by blast
qed

subsection \<open>Validation\<close>

lemma find_None_list_ex: "(find P xs = None) = (\<not> list_ex P xs)"
  by (induction xs) auto

lemma validate_iff_malformed:
  "(\<exists>e. validate_macro_definition name d = Inl e) \<longleftrightarrow> malformed d"
proof (cases d)
  case (YDict kvs)
  show ?thesis
  proof (cases "map_of kvs ''commands''")
    case None
    with YDict show ?thesis by (simp add: validate_macro_definition_def malformed_def)
  next
    case (Some cmds)
    show ?thesis
    proof (cases "map_of kvs ''env''")
      case None
      with YDict Some show ?thesis by (simp add: validate_macro_definition_def malformed_def)
    next
      case env: (Some env)
      show ?thesis
      proof (cases env)
        case (YDict items)
        show ?thesis
        proof (cases "find (\<lambda>(key, val). \<not> is_str val) items")
          case None
          with \<open>d = YDict kvs\<close> Some env YDict show ?thesis
            using find_None_list_ex [of "\<lambda>(key, val). \<not> is_str val" items]
            by (simp add: validate_macro_definition_def malformed_def)
        next
          case (Some kv)
          with \<open>d = YDict kvs\<close> \<open>map_of kvs ''commands'' = Some cmds\<close> env YDict show ?thesis
            using find_None_list_ex [of "\<lambda>(key, val). \<not> is_str val" items]
            by (simp add: validate_macro_definition_def malformed_def split: prod.splits)
        qed
      qed (use \<open>d = YDict kvs\<close> Some env in \<open>simp_all add: validate_macro_definition_def malformed_def\<close>)
    qed
  qed
qed (simp_all add: validate_macro_definition_def malformed_def)

lemma validate_names_key:
  assumes "validate_macro_definition name d = Inl (EnvValueMustBeString key n t)"
  shows "\<exists>kvs items val. d = YDict kvs \<and> map_of kvs ''env'' = Some (YDict items)
            \<and> (key, val) \<in> set items \<and> \<not> is_str val \<and> t = type_name val \<and> n = name"
proof -
  from assms obtain kvs items where d: "d = YDict kvs" "map_of kvs ''env'' = Some (YDict items)"
    and f: "find (\<lambda>(key, val). \<not> is_str val) items \<noteq> None"
      "(case find (\<lambda>(key, val). \<not> is_str val) items of
          Some (key', val) \<Rightarrow> key' = key \<and> t = type_name val \<and> n = name | None \<Rightarrow> False)"
    by (auto simp: validate_macro_definition_def
             split: yaml.splits option.splits if_splits prod.splits)
  then obtain val where "find (\<lambda>(key, val). \<not> is_str val) items = Some (key, val)"
     "t = type_name val" "n = name"
    by (auto split: option.splits)
  then have "(key, val) \<in> set items \<and> \<not> is_str val"
    by (auto simp: find_Some_iff in_set_conv_nth)
  with d \<open>t = type_name val\<close> \<open>n = name\<close> show ?thesis by blast
qed

lemma invalid_is_fatal:
  assumes "hashable name" "hkey name \<notin> executed_macros st"
    and "validate_macro_definition name d = Inl e"
  shows "execute_macro (Suc depth) S lg coe name d st =
           Some (Exited 1, error lg (InvalidDefinition e)
                   (info lg (ExecutingMacro name)
                      (st\<lparr>executed_macros := insert (hkey name) (executed_macros st)\<rparr>)))"
  using assms by simp

lemma grows_iff: "grows st st' \<longleftrightarrow> (\<exists>xs. console st' = console st @ xs)"
  unfolding grows_def
  by (metis append_eq_conv_conj append_take_drop_id)

lemma grows_refl [simp]: "grows st st"
  by (simp add: grows_def)

lemma grows_trans: "grows a b \<Longrightarrow> grows b c \<Longrightarrow> grows a c"
  by (auto simp: grows_iff)

lemma grows_log [simp]:
  "grows st (info lg m st)" "grows st (error lg m st)" "grows st (warn lg m st)"
  "grows st (log_command S lg c out err st)"
  by (auto simp: grows_iff log_command_def)

lemma grows_log_trans:
  "grows st st' \<Longrightarrow> grows st (info lg m st')"
  "grows st st' \<Longrightarrow> grows st (error lg m st')"
  "grows st st' \<Longrightarrow> grows st (warn lg m st')"
  "grows st st' \<Longrightarrow> grows st (log_command S lg c out err st')"
  using grows_log grows_trans by blast+

lemma grows_fields [simp]:
  "grows st (st'\<lparr>world := w\<rparr>) = grows st st'"
  "grows st (st'\<lparr>executed_macros := E\<rparr>) = grows st st'"
  "grows (st\<lparr>world := w\<rparr>) st' = grows st st'"
  "grows (st\<lparr>executed_macros := E\<rparr>) st' = grows st st'"
  by (simp_all add: grows_def)

lemma exec_command_grows:
  "grows (info lg (RunningCommand (command_index commands i command) (total_commands commands) command) st)
         (snd (exec_command S lg coe env commands i command st))"
  by (simp add: exec_command_def Let_def grows_log_trans split: prod.splits proc.splits)

lemma grows_info_first:
  "grows (info lg m st) st' \<Longrightarrow> \<exists>xs. console st' = console st @ Print INFO m # xs"
  by (auto simp: grows_iff)

lemma grows_info_weaken: "grows (info lg m st) st' \<Longrightarrow> grows st st'"
  by (auto simp: grows_iff)

lemma run_commands_grows:
  assumes nested: "\<And>c d s how s'. nested c d s = Some (how, s') \<Longrightarrow> grows s s'"
  shows "run_commands S lg coe nested env commands i steps st = Some (how, st')
         \<Longrightarrow> grows st st' \<and> (steps \<noteq> [] \<longrightarrow> (\<exists>m xs. console st' = console st @ Print INFO m # xs))"
proof (induction steps arbitrary: i st)
  case Nil
  then show ?case by simp
next
  case (Cons command rest)
  have "\<exists>m. grows (info lg m st) st'"
  proof (cases "call_of command")
    case None
    obtain r st1 where ec: "exec_command S lg coe env commands i command st = (r, st1)"
      by (cases "exec_command S lg coe env commands i command st")
    let ?m = "RunningCommand (command_index commands i command) (total_commands commands) command"
    have g1: "grows (info lg ?m st) st1"
      using exec_command_grows [of lg commands i command st S coe env] ec by simp
    from Cons.prems None ec consider
        (stop) "st' = st1"
      | (go) "run_commands S lg coe nested env commands (Suc i) rest st1 = Some (how, st')"
      by (cases r) auto
    then have "grows (info lg ?m st) st'"
    proof cases
      case stop
      with g1 show ?thesis by simp
    next
      case go
      from Cons.IH [OF go] g1 show ?thesis using grows_trans by blast
    qed
    then show ?thesis by blast
  next
    case (Some c)
    let ?st1 = "info lg (CallingMacro c) st"
    from Cons.prems Some consider
        (stop) "grows ?st1 st'"
      | (skip) "run_commands S lg coe nested env commands (Suc i) rest
                  (warn lg (SkippingMissingCall c) (error lg (MacroNotFound c) ?st1))
                = Some (how, st')"
      | (call) def st2 where "nested c def ?st1 = Some (Returned, st2)"
          "run_commands S lg coe nested env commands (Suc i) rest st2 = Some (how, st')"
      | (abort) def how' where "nested c def ?st1 = Some (how', st')"
      by (auto simp: Let_def
               split: sum.splits bool.splits if_splits option.splits prod.splits outcome.splits)
    then have "grows ?st1 st'"
    proof cases
      case stop
      then show ?thesis .
    next
      case skip
      have "grows ?st1 (warn lg (SkippingMissingCall c) (error lg (MacroNotFound c) ?st1))"
        by (simp add: grows_log_trans)
      with Cons.IH [OF skip] show ?thesis using grows_trans by blast
    next
      case call
      from nested [OF call(1)] Cons.IH [OF call(2)] show ?thesis
        using grows_trans by blast
    next
      case abort
      from nested [OF abort] show ?thesis .
    qed
    then show ?thesis by blast
  qed
  then show ?case
    using grows_info_first grows_info_weaken by blast
qed

lemma execute_macro_grows:
  "execute_macro depth S lg coe name d st = Some (how, st') \<Longrightarrow> grows st st'"
proof (induction depth arbitrary: name d st how st')
  case 0
  then show ?case by simp
next
  case (Suc depth)
  have nested: "\<And>c d s how s'. execute_macro depth S lg coe c d s = Some (how, s') \<Longrightarrow> grows s s'"
    using Suc.IH by blast
  have rc: "grows s s'"
    if "run_commands S lg coe (execute_macro depth S lg coe) env commands i steps s = Some (how, s')"
    for env commands i steps s how s'
    using run_commands_grows [where nested = "execute_macro depth S lg coe", OF nested that] by simp
  define st1 where "st1 = info lg (ExecutingMacro name)
                     (st\<lparr>executed_macros := insert (hkey name) (executed_macros st)\<rparr>)"
  have q1: "grows st st1" by (simp add: st1_def grows_log_trans)
  from Suc.prems consider
      (stop) "grows st st'"
    | (run) env commands st2 where
        "run_commands S lg coe (execute_macro depth S lg coe) env commands 0 commands st1
            = Some (Returned, st2)"
        "st' = info lg (MacroCompleted name)
                      (st2\<lparr>executed_macros := executed_macros st2 - {hkey name}\<rparr>) \<or> st' = st2"
    | (abort) env commands how' where
        "run_commands S lg coe (execute_macro depth S lg coe) env commands 0 commands st1
            = Some (how', st')"
    by (auto simp: Let_def st1_def grows_log_trans
             split: if_splits option.splits sum.splits prod.splits outcome.splits yaml.splits)
  then show ?case
  proof cases
    case stop
    then show ?thesis .
  next
    case run
    from rc [OF run(1)] have "grows st1 st2" .
    with q1 have "grows st st2" using grows_trans by blast
    with run(2) show ?thesis by (auto simp: grows_log_trans)
  next
    case abort
    from rc [OF abort] q1 show ?thesis using grows_trans by blast
  qed
qed

lemma well_formed_not_reported:
  assumes "hashable name" "hkey name \<notin> executed_macros st" "\<not> malformed d"
    and run: "execute_macro (Suc depth) S lg coe name d st = Some (how, st')"
  shows "\<exists>m xs. console st' = console st @ Print INFO (ExecutingMacro name) # Print INFO m # xs"
proof -
  define st1 where "st1 = info lg (ExecutingMacro name)
                     (st\<lparr>executed_macros := insert (hkey name) (executed_macros st)\<rparr>)"
  have c1: "console st1 = console st @ [Print INFO (ExecutingMacro name)]"
    by (simp add: st1_def)
  from \<open>\<not> malformed d\<close> obtain ok where ok: "validate_macro_definition name d = Inr ok"
    using validate_iff_malformed [of name d] by (cases "validate_macro_definition name d") auto
  from \<open>\<not> malformed d\<close> have shape: "is_list d \<or> is_dict d"
    by (cases d) (simp_all add: malformed_def)
  have nested: "\<And>c d s how s'. execute_macro depth S lg coe c d s = Some (how, s') \<Longrightarrow> grows s s'"
    using execute_macro_grows by blast
  from assms(1,2) ok shape obtain env commands where
    unfold: "execute_macro (Suc depth) S lg coe name d st =
      (case run_commands S lg coe (execute_macro depth S lg coe) env commands 0 commands st1 of
         None \<Rightarrow> None
       | Some (Returned, st2) \<Rightarrow>
           if hkey name \<in> executed_macros st2
           then Some (Returned, info lg (MacroCompleted name)
                        (st2\<lparr>executed_macros := executed_macros st2 - {hkey name}\<rparr>))
           else Some (Raised KeyError, st2)
       | Some (how, st2) \<Rightarrow> Some (how, st2))"
    by (cases d) (simp_all add: Let_def st1_def)
  show ?thesis
  proof (cases commands)
    case Nil
    with unfold run have "st' = info lg (MacroCompleted name)
                        (st1\<lparr>executed_macros := executed_macros st1 - {hkey name}\<rparr>)"
      by (simp add: st1_def)
    with c1 show ?thesis by simp
  next
    case (Cons c cs)
    from unfold run obtain how2 st2 where
      rc: "run_commands S lg coe (execute_macro depth S lg coe) env commands 0 commands st1
            = Some (how2, st2)"
      and fin: "st' = info lg (MacroCompleted name)
                      (st2\<lparr>executed_macros := executed_macros st2 - {hkey name}\<rparr>) \<or> st' = st2"
      by (auto split: option.splits prod.splits outcome.splits if_splits)
    have "grows st1 st2 \<and> (commands \<noteq> [] \<longrightarrow> (\<exists>m xs. console st2 = console st1 @ Print INFO m # xs))"
      using run_commands_grows [where nested = "execute_macro depth S lg coe", OF nested rc] .
    with Cons obtain m xs where "console st2 = console st1 @ Print INFO m # xs"
      by auto
    with fin c1 show ?thesis by auto
  qed
qed

text \<open>
  C7. For a call of \<^verbatim>\<open>execute_macro\<close> whose name is not on the call stack: if the
  definition is malformed, validation raises, and the call prints the error right after
  \<^verbatim>\<open>Executing macro\<close> and exits with code 1, with either value of continue-on-error and
  with the world untouched (no command has run); if it is not malformed, validation
  passes and the line after \<^verbatim>\<open>Executing macro\<close> is never an error. An error about a value
  of \<^verbatim>\<open>env\<close> names a key of \<^verbatim>\<open>env\<close> whose value is not a string.
\<close>

theorem validation_error_exactly_when_malformed:
  assumes "hashable name" and "hkey name \<notin> executed_macros st"
  shows "(malformed d \<longrightarrow>
            (\<exists>e st'. validate_macro_definition name d = Inl e
               \<and> execute_macro (Suc depth) S lg coe name d st = Some (Exited 1, st')
               \<and> world st' = world st
               \<and> console st' = console st @ [Print INFO (ExecutingMacro name),
                                              Print ERROR (InvalidDefinition e)]))
       \<and> (\<not> malformed d \<longrightarrow>
            validate_macro_definition name d = Inr True
            \<and> (\<forall>how st'. execute_macro (Suc depth) S lg coe name d st = Some (how, st') \<longrightarrow>
                  (\<exists>m xs. console st' = console st @ Print INFO (ExecutingMacro name)
                                                     # Print INFO m # xs)))
       \<and> (\<forall>key n t. validate_macro_definition name d = Inl (EnvValueMustBeString key n t) \<longrightarrow>
            (\<exists>kvs items val. d = YDict kvs \<and> map_of kvs ''env'' = Some (YDict items)
               \<and> (key, val) \<in> set items \<and> \<not> is_str val \<and> t = type_name val \<and> n = name))"
proof (intro conjI impI allI)
  assume "malformed d"
  then obtain e where e: "validate_macro_definition name d = Inl e"
    using validate_iff_malformed [of name d] by blast
  let ?st' = "error lg (InvalidDefinition e) (info lg (ExecutingMacro name)
                (st\<lparr>executed_macros := insert (hkey name) (executed_macros st)\<rparr>))"
  have "execute_macro (Suc depth) S lg coe name d st = Some (Exited 1, ?st')"
    using invalid_is_fatal [OF assms e] .
  moreover have "world ?st' = world st" by simp
  moreover have "console ?st' = console st @ [Print INFO (ExecutingMacro name),
                                              Print ERROR (InvalidDefinition e)]" by simp
  ultimately show "\<exists>e st'. validate_macro_definition name d = Inl e
               \<and> execute_macro (Suc depth) S lg coe name d st = Some (Exited 1, st')
               \<and> world st' = world st
               \<and> console st' = console st @ [Print INFO (ExecutingMacro name),
                                              Print ERROR (InvalidDefinition e)]"
    using e by blast
next
  assume "\<not> malformed d"
  then have "\<nexists>e. validate_macro_definition name d = Inl e"
    using validate_iff_malformed [of name d] by blast
  then show "validate_macro_definition name d = Inr True"
    by (cases "validate_macro_definition name d")
       (auto simp: validate_macro_definition_def split: yaml.splits option.splits if_splits prod.splits)
next
  fix how st'
  assume "\<not> malformed d" "execute_macro (Suc depth) S lg coe name d st = Some (how, st')"
  then show "\<exists>m xs. console st' = console st @ Print INFO (ExecutingMacro name) # Print INFO m # xs"
    using well_formed_not_reported [OF assms] by blast
next
  fix key n t
  assume "validate_macro_definition name d = Inl (EnvValueMustBeString key n t)"
  then show "\<exists>kvs items val. d = YDict kvs \<and> map_of kvs ''env'' = Some (YDict items)
               \<and> (key, val) \<in> set items \<and> \<not> is_str val \<and> t = type_name val \<and> n = name"
    by (rule validate_names_key)
qed

text \<open>
  An instance: a structured definition whose \<^verbatim>\<open>env\<close> maps \<^verbatim>\<open>N\<close> to the integer 3, and a
  bare sequence.
\<close>

theorem validation_error_exactly_when_malformed_witness:
  "hashable (YStr ''deploy'') \<and> hkey (YStr ''deploy'') \<notin> executed_macros start
   \<and> malformed (YDict [(''commands'', YList [YStr ''make'']), (''env'', YDict [(''N'', YInt 3)])])
   \<and> (\<exists>e st'. validate_macro_definition (YStr ''deploy'')
                  (YDict [(''commands'', YList [YStr ''make'']), (''env'', YDict [(''N'', YInt 3)])]) = Inl e
        \<and> execute_macro (Suc 0) (demo_sys Missing (\<lambda>_. Completed 0 [] []) []) plain_logger True
             (YStr ''deploy'')
             (YDict [(''commands'', YList [YStr ''make'']), (''env'', YDict [(''N'', YInt 3)])]) start
            = Some (Exited 1, st')
        \<and> world st' = world start
        \<and> console st' = console start @ [Print INFO (ExecutingMacro (YStr ''deploy'')),
                                          Print ERROR (InvalidDefinition e)])
   \<and> \<not> malformed (YList [YInt 3])
   \<and> validate_macro_definition (YStr ''deploy'') (YList [YInt 3]) = Inr True
   \<and> validate_macro_definition (YStr ''deploy'')
        (YDict [(''commands'', YList [YStr ''make'']), (''env'', YDict [(''N'', YInt 3)])])
       = Inl (EnvValueMustBeString ''N'' (YStr ''deploy'') ''int'')"
proof -
  have h: "hashable (YStr ''deploy'')" "hkey (YStr ''deploy'') \<notin> executed_macros start"
    by (simp_all add: start_def)
  have bad: "malformed (YDict [(''commands'', YList [YStr ''make'']), (''env'', YDict [(''N'', YInt 3)])])"
    by (simp add: malformed_def)
  have good: "\<not> malformed (YList [YInt 3])"
    by (simp add: malformed_def)
  have key: "validate_macro_definition (YStr ''deploy'')
        (YDict [(''commands'', YList [YStr ''make'']), (''env'', YDict [(''N'', YInt 3)])])
       = Inl (EnvValueMustBeString ''N'' (YStr ''deploy'') ''int'')"
    by (simp add: validate_macro_definition_def)
  from validation_error_exactly_when_malformed [OF h,
         of "YDict [(''commands'', YList [YStr ''make'']), (''env'', YDict [(''N'', YInt 3)])]" 0
            "demo_sys Missing (\<lambda>_. Completed 0 [] []) []" plain_logger True]
       validation_error_exactly_when_malformed [OF h, of "YList [YInt 3]" 0
            "demo_sys Missing (\<lambda>_. Completed 0 [] []) []" plain_logger True]
       h bad good key
  show ?thesis by blast
qed

subsection \<open>The failure policy\<close>

lemma run_commands_append:
  "run_commands S lg coe nested env commands i (pre @ post) st =
     (case run_commands S lg coe nested env commands i pre st of
        Some (Returned, st1) \<Rightarrow> run_commands S lg coe nested env commands (i + length pre) post st1
      | r \<Rightarrow> r)"
proof (induction pre arbitrary: i st coe)
  case Nil
  show ?case by simp
next
  case (Cons command pre)
  show ?case
    by (simp add: Cons.IH Let_def
          split: sum.splits bool.splits option.splits prod.splits outcome.splits)
qed

lemma failure_code_command:
  assumes "call_of command = None" "failure_code S lg env command st = Some code"
  shows "command_failure S lg env command st = Some code"
  using assms by (auto simp: failure_code_def call_of_def split: yaml.splits option.splits)

lemma failing_command:
  assumes "call_of command = None" "command_failure S lg env command st = Some code"
  shows "run_commands S lg coe nested env commands i (command # rest) st =
           (if coe then run_commands S lg coe nested env commands (Suc i) rest
                          (after_step S lg coe env commands i command st)
            else Some (Exited code, after_step S lg coe env commands i command st))"
  using assms
  by (auto simp: command_failure_def after_step_def exec_command_def Let_def
           split: if_splits proc.splits prod.splits)

lemma missing_call:
  assumes "call_of command = Some c"
    and "load_macros (read_file S (world st)) = Inr all_macros"
    and "macro_missing all_macros c = Inr True"
  shows "run_commands S lg coe nested env commands i (command # rest) st =
           (if coe then run_commands S lg coe nested env commands (Suc i) rest
                          (after_step S lg coe env commands i command st)
            else Some (Exited 1, after_step S lg coe env commands i command st))"
  using assms by (auto simp: after_step_def Let_def)

lemma failing_step_warns:
  assumes "failure_code S lg env command st = Some code"
  shows "\<exists>m. last (console (after_step S lg True env commands i command st)) = Print WARNING m"
proof (cases "call_of command")
  case None
  with failure_code_command [OF None assms] show ?thesis
    by (auto simp: command_failure_def after_step_def exec_command_def Let_def
             split: if_splits proc.splits prod.splits)
next
  case (Some c)
  then show ?thesis
    by (simp add: after_step_def Let_def)
qed

lemma failing_step_world:
  "world (after_step S lg coe env commands i command st) =
     (if call_of command = None \<and> \<not> dry_run lg then snd (run_cmd S command env (world st)) else world st)"
  by (auto simp: after_step_def exec_command_def Let_def split: proc.splits prod.splits option.splits)

lemma execute_macro_unfold:
  assumes "hashable name" "hkey name \<notin> executed_macros st" "\<not> malformed d"
  shows "execute_macro (Suc depth) S lg coe name d st =
           (case run_commands S lg coe (execute_macro depth S lg coe) (env_of S d)
                   (steps_of d) 0 (steps_of d) (entered lg name st) of
              None \<Rightarrow> None
            | Some (Returned, st2) \<Rightarrow>
                if hkey name \<in> executed_macros st2
                then Some (Returned, info lg (MacroCompleted name)
                             (st2\<lparr>executed_macros := executed_macros st2 - {hkey name}\<rparr>))
                else Some (Raised KeyError, st2)
            | Some (how, st2) \<Rightarrow> Some (how, st2))"
proof -
  from assms(3) obtain ok where ok: "validate_macro_definition name d = Inr ok"
    using validate_iff_malformed [of name d] by (cases "validate_macro_definition name d") auto
  from assms(3) have "is_list d \<or> is_dict d"
    by (cases d) (simp_all add: malformed_def)
  with assms(1,2) ok show ?thesis
    by (cases d) (simp_all add: Let_def entered_def)
qed

lemma execute_macro_abort:
  assumes "hashable name" "hkey name \<notin> executed_macros st" "\<not> malformed d"
    and "run_commands S lg coe (execute_macro depth S lg coe) (env_of S d)
           (steps_of d) 0 (steps_of d) (entered lg name st) = Some (how, st')"
    and "how \<noteq> Returned"
  shows "execute_macro (Suc depth) S lg coe name d st = Some (how, st')"
  using assms(4,5) unfolding execute_macro_unfold [OF assms(1-3)]
  by (cases how) simp_all

lemma loop_abort:
  assumes "run_commands S lg coe nested env commands i pre st = Some (Returned, st1)"
    and "run_commands S lg coe nested env commands (i + length pre) post st1 = Some (how, st')"
  shows "run_commands S lg coe nested env commands i (pre @ post) st = Some (how, st')"
  using assms by (simp add: run_commands_append)

lemma loop_step:
  assumes "run_commands S lg coe nested env commands i pre st = Some (Returned, st1)"
  shows "run_commands S lg coe nested env commands i (pre @ post) st
           = run_commands S lg coe nested env commands (i + length pre) post st1"
  using assms by (simp add: run_commands_append)

lemma nested_exit:
  assumes "call_of command = Some c"
    and "load_macros (read_file S (world st)) = Inr all_macros"
    and "macro_missing all_macros c = Inr False"
    and "py_getitem all_macros c = Inr def"
    and "nested c def (info lg (CallingMacro c) st) = Some (how, st')"
    and "how \<noteq> Returned"
  shows "run_commands S lg coe nested env commands i (command # rest) st = Some (how, st')"
  using assms by (cases how) (simp_all add: Let_def)

text \<open>
  C3. A call of \<^verbatim>\<open>execute_macro\<close> on a well-formed definition has completed the steps
  before \<open>command\<close>. If \<open>command\<close> fails and continue-on-error is off, the call ends
  there with \<^verbatim>\<open>sys.exit\<close>, whatever steps \<open>rest\<close> holds: the exit code is the command's own
  return code, or 1 for a missing macro or an executor exception, and the world is the one
  the failing command left (the one before, for a missing macro). If continue-on-error is
  on, the loop goes on with \<open>rest\<close>, and the last line printed for the failing step is a
  warning. For a missing macro the engine has printed \<^verbatim>\<open>Calling macro\<close> and
  \<^verbatim>\<open>not found\<close> (and \<^verbatim>\<open>Skipping missing macro call\<close> when it goes on). If \<open>command\<close> calls
  a macro that the file defines at that moment and that call ends with \<^verbatim>\<open>sys.exit\<close>, so
  does this one, with the same code and in the same state.
\<close>

theorem failure_policy:
  assumes entry: "hashable name" "hkey name \<notin> executed_macros st0" "\<not> malformed d"
    and steps: "steps_of d = pre @ command # rest"
    and pre: "run_commands S lg coe (execute_macro depth S lg coe) (env_of S d) (steps_of d) 0 pre
                (entered lg name st0) = Some (Returned, st1)"
  shows "(\<forall>code. failure_code S lg (env_of S d) command st1 = Some code \<longrightarrow>
            (\<not> coe \<longrightarrow>
               execute_macro (Suc depth) S lg coe name d st0
                 = Some (Exited code,
                     after_step S lg coe (env_of S d) (steps_of d) (length pre) command st1))
          \<and> (coe \<longrightarrow>
               run_commands S lg coe (execute_macro depth S lg coe) (env_of S d) (steps_of d) 0
                   (steps_of d) (entered lg name st0)
                 = run_commands S lg coe (execute_macro depth S lg coe) (env_of S d) (steps_of d)
                     (Suc (length pre)) rest
                     (after_step S lg coe (env_of S d) (steps_of d) (length pre) command st1)
               \<and> (\<exists>m. last (console (after_step S lg coe (env_of S d) (steps_of d) (length pre)
                                          command st1)) = Print WARNING m))
          \<and> world (after_step S lg coe (env_of S d) (steps_of d) (length pre) command st1) =
              (if call_of command = None then snd (run_cmd S command (env_of S d) (world st1))
               else world st1))
       \<and> (\<forall>kvs n. command = YDict kvs \<and> map_of kvs ''call'' = Some (YStr n) \<longrightarrow>
            after_step S lg coe (env_of S d) (steps_of d) (length pre) command st1
              = (if coe
                 then warn lg (SkippingMissingCall (YStr n))
                        (error lg (MacroNotFound (YStr n)) (info lg (CallingMacro (YStr n)) st1))
                 else error lg (MacroNotFound (YStr n)) (info lg (CallingMacro (YStr n)) st1)))
       \<and> (\<forall>kvs n macros def code st'.
            command = YDict kvs \<and> map_of kvs ''call'' = Some (YStr n)
            \<and> document_macros (read_file S (world st1)) = Some macros
            \<and> map_of macros n = Some def
            \<and> execute_macro depth S lg coe (YStr n) def (info lg (CallingMacro (YStr n)) st1)
                 = Some (Exited code, st') \<longrightarrow>
            execute_macro (Suc depth) S lg coe name d st0 = Some (Exited code, st'))"
proof (intro conjI allI impI)
  fix code
  assume fails: "failure_code S lg (env_of S d) command st1 = Some code"
  have step: "run_commands S lg coe (execute_macro depth S lg coe) (env_of S d) (steps_of d)
                 (length pre) (command # rest) st1
              = (if coe
                 then run_commands S lg coe (execute_macro depth S lg coe) (env_of S d) (steps_of d)
                        (Suc (length pre)) rest
                        (after_step S lg coe (env_of S d) (steps_of d) (length pre) command st1)
                 else Some (Exited code,
                        after_step S lg coe (env_of S d) (steps_of d) (length pre) command st1))"
  proof (cases "call_of command")
    case None
    from failing_command [OF None failure_code_command [OF None fails]] show ?thesis .
  next
    case (Some c)
    with fails obtain n macros where c: "c = YStr n"
      and doc: "document_macros (read_file S (world st1)) = Some macros"
      and unknown: "map_of macros n = None" and code: "code = 1"
      by (auto simp: failure_code_def call_of_def split: yaml.splits option.splits if_splits)
    from unknown have "n \<notin> set (map fst macros)"
      by (simp add: map_of_eq_None_iff)
    with doc have "\<exists>all_macros. load_macros (read_file S (world st1)) = Inr all_macros
                     \<and> macro_missing all_macros (YStr n) = Inr True"
      by (auto simp: document_macros_def load_macros_def macro_missing_def py_in_def
               split: file_state.splits yaml.splits option.splits)
    then obtain all_macros where "load_macros (read_file S (world st1)) = Inr all_macros"
      "macro_missing all_macros (YStr n) = Inr True"
      by blast
    from missing_call [OF Some [unfolded c] this] code show ?thesis
      by simp
  qed
  have loop: "run_commands S lg coe (execute_macro depth S lg coe) (env_of S d) (steps_of d) 0
                 (steps_of d) (entered lg name st0)
              = run_commands S lg coe (execute_macro depth S lg coe) (env_of S d) (steps_of d)
                 (length pre) (command # rest) st1"
    using loop_step [OF pre, of "command # rest"] steps by simp
  {
    assume "\<not> coe"
    with loop step have "run_commands S lg coe (execute_macro depth S lg coe) (env_of S d) (steps_of d) 0
                   (steps_of d) (entered lg name st0)
          = Some (Exited code, after_step S lg coe (env_of S d) (steps_of d) (length pre) command st1)"
      by simp
    then show "execute_macro (Suc depth) S lg coe name d st0
                 = Some (Exited code,
                     after_step S lg coe (env_of S d) (steps_of d) (length pre) command st1)"
      using execute_macro_abort [OF entry] by blast
  }
  {
    assume "coe"
    with loop step show "run_commands S lg coe (execute_macro depth S lg coe) (env_of S d) (steps_of d) 0
                   (steps_of d) (entered lg name st0)
                 = run_commands S lg coe (execute_macro depth S lg coe) (env_of S d) (steps_of d)
                     (Suc (length pre)) rest
                     (after_step S lg coe (env_of S d) (steps_of d) (length pre) command st1)"
      by simp
    from \<open>coe\<close> failing_step_warns [OF fails, of "steps_of d" "length pre"]
    show "\<exists>m. last (console (after_step S lg coe (env_of S d) (steps_of d) (length pre)
                                          command st1)) = Print WARNING m"
      by simp
  }
  have nodry: "call_of command = None \<Longrightarrow> \<not> dry_run lg"
    using failure_code_command [OF _ fails] by (auto simp: command_failure_def split: if_splits)
  then show "world (after_step S lg coe (env_of S d) (steps_of d) (length pre) command st1) =
              (if call_of command = None then snd (run_cmd S command (env_of S d) (world st1))
               else world st1)"
    by (auto simp: failing_step_world)
next
  fix kvs n
  assume "command = YDict kvs \<and> map_of kvs ''call'' = Some (YStr n)"
  then show "after_step S lg coe (env_of S d) (steps_of d) (length pre) command st1
              = (if coe
                 then warn lg (SkippingMissingCall (YStr n))
                        (error lg (MacroNotFound (YStr n)) (info lg (CallingMacro (YStr n)) st1))
                 else error lg (MacroNotFound (YStr n)) (info lg (CallingMacro (YStr n)) st1))"
    by (simp add: after_step_def call_of_def Let_def)
next
  fix kvs n macros "def" code st'
  assume a: "command = YDict kvs \<and> map_of kvs ''call'' = Some (YStr n)
            \<and> document_macros (read_file S (world st1)) = Some macros
            \<and> map_of macros n = Some def
            \<and> execute_macro depth S lg coe (YStr n) def (info lg (CallingMacro (YStr n)) st1)
                 = Some (Exited code, st')"
  then have call: "call_of command = Some (YStr n)"
    by (simp add: call_of_def)
  from a have doc: "document_macros (read_file S (world st1)) = Some macros"
    and defined: "map_of macros n = Some def"
    by blast+
  from defined have "n \<in> set (map fst macros)"
    by (metis map_of_eq_None_iff option.distinct(1) set_map)
  moreover from doc defined have "load_macros (read_file S (world st1)) = Inr (YDict macros)"
    by (auto simp: document_macros_def load_macros_def
             split: file_state.splits yaml.splits option.splits)
  ultimately have "\<exists>all_macros. load_macros (read_file S (world st1)) = Inr all_macros
                     \<and> macro_missing all_macros (YStr n) = Inr False
                     \<and> py_getitem all_macros (YStr n) = Inr def"
    using defined by (simp add: macro_missing_def py_in_def py_getitem_def)
  then obtain all_macros where "load_macros (read_file S (world st1)) = Inr all_macros"
    "macro_missing all_macros (YStr n) = Inr False" "py_getitem all_macros (YStr n) = Inr def"
    by blast
  with call a have "run_commands S lg coe (execute_macro depth S lg coe) (env_of S d) (steps_of d)
               (0 + length pre) (command # rest) st1 = Some (Exited code, st')"
    using nested_exit [where nested = "execute_macro depth S lg coe" and how = "Exited code"]
    by blast
  from loop_abort [OF pre this] steps
  have "run_commands S lg coe (execute_macro depth S lg coe) (env_of S d) (steps_of d) 0
                   (steps_of d) (entered lg name st0) = Some (Exited code, st')"
    by simp
  then show "execute_macro (Suc depth) S lg coe name d st0 = Some (Exited code, st')"
    using execute_macro_abort [OF entry] by blast
qed

text \<open>
  An instance: of three commands the second exits with code 3. With continue-on-error
  off the run exits with 3 and the third command has not run; with continue-on-error on
  the loop goes on after a warning and all three have run. The same failing command
  inside a called macro ends the caller with code 3. And of three steps the second calls
  \<^verbatim>\<open>gone\<close>, which the file does not define: with continue-on-error off the run reports
  \<^verbatim>\<open>not found\<close> and exits with 1 before the third step, with continue-on-error on it
  warns, skips the call and runs the third step.
\<close>

theorem failure_policy_witness:
  "(\<exists>st'. execute_macro 1
            (demo_sys Missing
               (\<lambda>c. if c = YStr ''cmd1'' then Completed 3 [] ''bad'' else Completed 0 ''ok'' []) [])
            plain_logger False (YStr ''a'') (YList [YStr ''cmd0'', YStr ''cmd1'', YStr ''cmd2'']) start
          = Some (Exited 3, st')
        \<and> world st' = [(YStr ''cmd0'', None), (YStr ''cmd1'', None)])
   \<and> (\<exists>st2 m. run_commands
            (demo_sys Missing
               (\<lambda>c. if c = YStr ''cmd1'' then Completed 3 [] ''bad'' else Completed 0 ''ok'' []) [])
            plain_logger True
            (execute_macro 0 (demo_sys Missing
               (\<lambda>c. if c = YStr ''cmd1'' then Completed 3 [] ''bad'' else Completed 0 ''ok'' []) [])
               plain_logger True)
            (env_of (demo_sys Missing
               (\<lambda>c. if c = YStr ''cmd1'' then Completed 3 [] ''bad'' else Completed 0 ''ok'' []) [])
               (YList [YStr ''cmd0'', YStr ''cmd1'', YStr ''cmd2'']))
            [YStr ''cmd0'', YStr ''cmd1'', YStr ''cmd2''] 0
            [YStr ''cmd0'', YStr ''cmd1'', YStr ''cmd2'']
            (entered plain_logger (YStr ''a'') start)
          = run_commands
            (demo_sys Missing
               (\<lambda>c. if c = YStr ''cmd1'' then Completed 3 [] ''bad'' else Completed 0 ''ok'' []) [])
            plain_logger True
            (execute_macro 0 (demo_sys Missing
               (\<lambda>c. if c = YStr ''cmd1'' then Completed 3 [] ''bad'' else Completed 0 ''ok'' []) [])
               plain_logger True)
            (env_of (demo_sys Missing
               (\<lambda>c. if c = YStr ''cmd1'' then Completed 3 [] ''bad'' else Completed 0 ''ok'' []) [])
               (YList [YStr ''cmd0'', YStr ''cmd1'', YStr ''cmd2'']))
            [YStr ''cmd0'', YStr ''cmd1'', YStr ''cmd2''] 2 [YStr ''cmd2''] st2
        \<and> world st2 = [(YStr ''cmd0'', None), (YStr ''cmd1'', None)]
        \<and> last (console st2) = Print WARNING m)
   \<and> map_option (\<lambda>(how, s). (how, world s))
        (execute_macro 1
            (demo_sys Missing
               (\<lambda>c. if c = YStr ''cmd1'' then Completed 3 [] ''bad'' else Completed 0 ''ok'' []) [])
            plain_logger True (YStr ''a'') (YList [YStr ''cmd0'', YStr ''cmd1'', YStr ''cmd2'']) start)
       = Some (Returned, [(YStr ''cmd0'', None), (YStr ''cmd1'', None), (YStr ''cmd2'', None)])
   \<and> (\<exists>st'. execute_macro 2
            (demo_sys (Parsed (YDict [(''b'', YList [YStr ''cmd1''])]))
               (\<lambda>c. if c = YStr ''cmd1'' then Completed 3 [] ''bad'' else Completed 0 ''ok'' []) [])
            plain_logger False (YStr ''a'') (YList [YDict [(''call'', YStr ''b'')], YStr ''cmd2'']) start
          = Some (Exited 3, st')
        \<and> world st' = [(YStr ''cmd1'', None)])
   \<and> failure_code (demo_sys (Parsed (YDict [(''b'', YList [YStr ''cmd1''])]))
                 (\<lambda>c. if c = YStr ''cmd1'' then Completed 3 [] ''bad'' else Completed 0 ''ok'' []) []) plain_logger (env_of (demo_sys (Parsed (YDict [(''b'', YList [YStr ''cmd1''])]))
                 (\<lambda>c. if c = YStr ''cmd1'' then Completed 3 [] ''bad'' else Completed 0 ''ok'' []) []) (YList [YStr ''cmd0'', YDict [(''call'', YStr ''gone'')], YStr ''cmd2''])) (YDict [(''call'', YStr ''gone'')])
         (entered plain_logger (YStr ''a'') start) = Some 1
   \<and> (\<exists>st'. execute_macro 1 (demo_sys (Parsed (YDict [(''b'', YList [YStr ''cmd1''])]))
                 (\<lambda>c. if c = YStr ''cmd1'' then Completed 3 [] ''bad'' else Completed 0 ''ok'' []) []) plain_logger False (YStr ''a'') (YList [YStr ''cmd0'', YDict [(''call'', YStr ''gone'')], YStr ''cmd2'']) start = Some (Exited 1, st')
        \<and> world st' = [(YStr ''cmd0'', None)]
        \<and> last (console st') = Print ERROR (MacroNotFound (YStr ''gone'')))
   \<and> (\<exists>st2. run_commands (demo_sys (Parsed (YDict [(''b'', YList [YStr ''cmd1''])]))
                 (\<lambda>c. if c = YStr ''cmd1'' then Completed 3 [] ''bad'' else Completed 0 ''ok'' []) []) plain_logger True (execute_macro 0 (demo_sys (Parsed (YDict [(''b'', YList [YStr ''cmd1''])]))
                 (\<lambda>c. if c = YStr ''cmd1'' then Completed 3 [] ''bad'' else Completed 0 ''ok'' []) []) plain_logger True)
            (env_of (demo_sys (Parsed (YDict [(''b'', YList [YStr ''cmd1''])]))
                 (\<lambda>c. if c = YStr ''cmd1'' then Completed 3 [] ''bad'' else Completed 0 ''ok'' []) []) (YList [YStr ''cmd0'', YDict [(''call'', YStr ''gone'')], YStr ''cmd2'']))
            [YStr ''cmd0'', YDict [(''call'', YStr ''gone'')], YStr ''cmd2''] 0
            [YStr ''cmd0'', YDict [(''call'', YStr ''gone'')], YStr ''cmd2'']
            (entered plain_logger (YStr ''a'') start)
          = run_commands (demo_sys (Parsed (YDict [(''b'', YList [YStr ''cmd1''])]))
                 (\<lambda>c. if c = YStr ''cmd1'' then Completed 3 [] ''bad'' else Completed 0 ''ok'' []) []) plain_logger True (execute_macro 0 (demo_sys (Parsed (YDict [(''b'', YList [YStr ''cmd1''])]))
                 (\<lambda>c. if c = YStr ''cmd1'' then Completed 3 [] ''bad'' else Completed 0 ''ok'' []) []) plain_logger True)
            (env_of (demo_sys (Parsed (YDict [(''b'', YList [YStr ''cmd1''])]))
                 (\<lambda>c. if c = YStr ''cmd1'' then Completed 3 [] ''bad'' else Completed 0 ''ok'' []) []) (YList [YStr ''cmd0'', YDict [(''call'', YStr ''gone'')], YStr ''cmd2'']))
            [YStr ''cmd0'', YDict [(''call'', YStr ''gone'')], YStr ''cmd2''] 2 [YStr ''cmd2''] st2
        \<and> world st2 = [(YStr ''cmd0'', None)]
        \<and> last (console st2) = Print WARNING (SkippingMissingCall (YStr ''gone'')))
   \<and> map_option (\<lambda>(how, s). (how, world s, last (console s)))
        (execute_macro 1 (demo_sys (Parsed (YDict [(''b'', YList [YStr ''cmd1''])]))
                 (\<lambda>c. if c = YStr ''cmd1'' then Completed 3 [] ''bad'' else Completed 0 ''ok'' []) []) plain_logger False (YStr ''a'') (YList [YStr ''cmd0'', YDict [(''call'', YStr ''gone'')], YStr ''cmd2'']) start)
       = Some (Exited 1, [(YStr ''cmd0'', None)], Print ERROR (MacroNotFound (YStr ''gone'')))
   \<and> map_option (\<lambda>(how, s). (how, world s))
        (execute_macro 1 (demo_sys (Parsed (YDict [(''b'', YList [YStr ''cmd1''])]))
                 (\<lambda>c. if c = YStr ''cmd1'' then Completed 3 [] ''bad'' else Completed 0 ''ok'' []) []) plain_logger True (YStr ''a'') (YList [YStr ''cmd0'', YDict [(''call'', YStr ''gone'')], YStr ''cmd2'']) start)
       = Some (Returned, [(YStr ''cmd0'', None), (YStr ''cmd2'', None)])
   \<and> map_option (\<lambda>(how, s). (how, world s))
        (execute_macro 2
            (demo_sys (Parsed (YDict [(''b'', YList [YStr ''cmd1''])]))
               (\<lambda>c. if c = YStr ''cmd1'' then Completed 3 [] ''bad'' else Completed 0 ''ok'' []) [])
            plain_logger False (YStr ''a'') (YList [YDict [(''call'', YStr ''b'')], YStr ''cmd2'']) start)
       = Some (Exited 3, [(YStr ''cmd1'', None)])"
proof -
  let ?beh = "\<lambda>c. if c = YStr ''cmd1'' then Completed 3 [] ''bad'' else Completed 0 ''ok'' []"
  let ?S = "demo_sys Missing ?beh []"
  let ?d = "YList [YStr ''cmd0'', YStr ''cmd1'', YStr ''cmd2'']"
  let ?a = "YStr ''a''"
  have entry: "hashable ?a" "hkey ?a \<notin> executed_macros start"
    by (simp_all add: start_def)
  have wf: "\<not> malformed ?d"
    by (simp add: malformed_def)
  have steps: "steps_of ?d = [YStr ''cmd0''] @ YStr ''cmd1'' # [YStr ''cmd2'']"
    by simp
  have fails: "failure_code ?S plain_logger (env_of ?S ?d) (YStr ''cmd1'') s = Some 3" for s
    by (simp add: failure_code_def command_failure_def demo_sys_def plain_logger_def)
  have lit: "call_of (YStr ''cmd1'') = None"
    by (simp add: call_of_def)
  have ran: "snd (run_cmd ?S (YStr ''cmd1'') (env_of ?S ?d) w) = w @ [(YStr ''cmd1'', None)]" for w
    by (simp add: demo_sys_def base_env_def)
  \<comment> \<open>continue-on-error off\<close>
  have "map_option (\<lambda>(how, s). (how, world s))
          (run_commands ?S plain_logger False (execute_macro 0 ?S plain_logger False) (env_of ?S ?d)
             (steps_of ?d) 0 [YStr ''cmd0''] (entered plain_logger ?a start))
        = Some (Returned, [(YStr ''cmd0'', None)])"
    by code_simp
  then obtain st1 where
    pre: "run_commands ?S plain_logger False (execute_macro 0 ?S plain_logger False) (env_of ?S ?d)
             (steps_of ?d) 0 [YStr ''cmd0''] (entered plain_logger ?a start) = Some (Returned, st1)"
    and w1: "world st1 = [(YStr ''cmd0'', None)]"
    by auto
  from failure_policy [OF entry wf steps pre] fails [of st1] lit ran [of "world st1"] w1
  have off: "\<exists>st'. execute_macro 1 ?S plain_logger False ?a ?d start = Some (Exited 3, st')
                \<and> world st' = [(YStr ''cmd0'', None), (YStr ''cmd1'', None)]"
    by auto
  \<comment> \<open>continue-on-error on\<close>
  have "map_option (\<lambda>(how, s). (how, world s))
          (run_commands ?S plain_logger True (execute_macro 0 ?S plain_logger True) (env_of ?S ?d)
             (steps_of ?d) 0 [YStr ''cmd0''] (entered plain_logger ?a start))
        = Some (Returned, [(YStr ''cmd0'', None)])"
    by code_simp
  then obtain st1' where
    pre': "run_commands ?S plain_logger True (execute_macro 0 ?S plain_logger True) (env_of ?S ?d)
             (steps_of ?d) 0 [YStr ''cmd0''] (entered plain_logger ?a start) = Some (Returned, st1')"
    and w1': "world st1' = [(YStr ''cmd0'', None)]"
    by auto
  from failure_policy [OF entry wf steps pre'] fails [of st1'] lit ran [of "world st1'"] w1'
  have on: "\<exists>st2 m. run_commands ?S plain_logger True (execute_macro 0 ?S plain_logger True)
                (env_of ?S ?d) [YStr ''cmd0'', YStr ''cmd1'', YStr ''cmd2''] 0
                [YStr ''cmd0'', YStr ''cmd1'', YStr ''cmd2''] (entered plain_logger ?a start)
              = run_commands ?S plain_logger True (execute_macro 0 ?S plain_logger True)
                (env_of ?S ?d) [YStr ''cmd0'', YStr ''cmd1'', YStr ''cmd2''] 2 [YStr ''cmd2''] st2
            \<and> world st2 = [(YStr ''cmd0'', None), (YStr ''cmd1'', None)]
            \<and> last (console st2) = Print WARNING m"
    by (auto simp: numeral_2_eq_2)
  have all: "map_option (\<lambda>(how, s). (how, world s))
        (execute_macro 1 ?S plain_logger True ?a ?d start)
       = Some (Returned, [(YStr ''cmd0'', None), (YStr ''cmd1'', None), (YStr ''cmd2'', None)])"
    by code_simp
  \<comment> \<open>the failing command is in a called macro\<close>
  let ?T = "demo_sys (Parsed (YDict [(''b'', YList [YStr ''cmd1''])])) ?beh []"
  let ?e = "YList [YDict [(''call'', YStr ''b'')], YStr ''cmd2'']"
  have wf3: "\<not> malformed ?e"
    by (simp add: malformed_def)
  have steps3: "steps_of ?e = [] @ YDict [(''call'', YStr ''b'')] # [YStr ''cmd2'']"
    by simp
  have pre3: "run_commands ?T plain_logger False (execute_macro 1 ?T plain_logger False) (env_of ?T ?e)
             (steps_of ?e) 0 [] (entered plain_logger ?a start)
             = Some (Returned, entered plain_logger ?a start)"
    by simp
  have res: "document_macros (read_file ?T (world (entered plain_logger ?a start)))
               = Some [(''b'', YList [YStr ''cmd1''])]"
    by (simp add: document_macros_def demo_sys_def)
  have "map_option (\<lambda>(how, s). (how, world s))
          (execute_macro 1 ?T plain_logger False (YStr ''b'') (YList [YStr ''cmd1''])
             (info plain_logger (CallingMacro (YStr ''b'')) (entered plain_logger ?a start)))
        = Some (Exited 3, [(YStr ''cmd1'', None)])"
    by code_simp
  then obtain st3 where
    inner: "execute_macro 1 ?T plain_logger False (YStr ''b'') (YList [YStr ''cmd1''])
             (info plain_logger (CallingMacro (YStr ''b'')) (entered plain_logger ?a start))
            = Some (Exited 3, st3)"
    and w3: "world st3 = [(YStr ''cmd1'', None)]"
    by auto
  from res inner
  have "YDict [(''call'', YStr ''b'')] = YDict [(''call'', YStr ''b'')]
        \<and> map_of [(''call'', YStr ''b'')] ''call'' = Some (YStr ''b'')
        \<and> document_macros (read_file ?T (world (entered plain_logger ?a start)))
            = Some [(''b'', YList [YStr ''cmd1''])]
        \<and> map_of [(''b'', YList [YStr ''cmd1''])] ''b'' = Some (YList [YStr ''cmd1''])
        \<and> execute_macro 1 ?T plain_logger False (YStr ''b'') (YList [YStr ''cmd1''])
             (info plain_logger (CallingMacro (YStr ''b'')) (entered plain_logger ?a start))
            = Some (Exited 3, st3)"
    by simp
  from failure_policy [OF entry wf3 steps3 pre3, THEN conjunct2, THEN conjunct2, rule_format,
         OF this] w3
  have nested: "\<exists>st'. execute_macro 2 ?T plain_logger False ?a ?e start = Some (Exited 3, st')
                \<and> world st' = [(YStr ''cmd1'', None)]"
    by (auto simp: numeral_2_eq_2)
  \<comment> \<open>the second step calls a macro that the file does not define\<close>
  let ?g = "YList [YStr ''cmd0'', YDict [(''call'', YStr ''gone'')], YStr ''cmd2'']"
  let ?c = "YDict [(''call'', YStr ''gone'')]"
  have wf4: "\<not> malformed ?g"
    by (simp add: malformed_def)
  have steps4: "steps_of ?g = [YStr ''cmd0''] @ ?c # [YStr ''cmd2'']"
    by simp
  have fails4: "failure_code ?T plain_logger (env_of ?T ?g) ?c s = Some 1" for s
    by (simp add: failure_code_def document_macros_def demo_sys_def)
  have "map_option (\<lambda>(how, s). (how, world s))
          (run_commands ?T plain_logger False (execute_macro 0 ?T plain_logger False) (env_of ?T ?g)
             (steps_of ?g) 0 [YStr ''cmd0''] (entered plain_logger ?a start))
        = Some (Returned, [(YStr ''cmd0'', None)])"
    by code_simp
  then obtain st4 where
    pre4: "run_commands ?T plain_logger False (execute_macro 0 ?T plain_logger False) (env_of ?T ?g)
             (steps_of ?g) 0 [YStr ''cmd0''] (entered plain_logger ?a start) = Some (Returned, st4)"
    and w4: "world st4 = [(YStr ''cmd0'', None)]"
    by auto
  from failure_policy [OF entry wf4 steps4 pre4] fails4 [of st4] w4
  have gone_off: "\<exists>st'. execute_macro 1 ?T plain_logger False ?a ?g start = Some (Exited 1, st')
                \<and> world st' = [(YStr ''cmd0'', None)]
                \<and> last (console st') = Print ERROR (MacroNotFound (YStr ''gone''))"
    by simp
  have "map_option (\<lambda>(how, s). (how, world s))
          (run_commands ?T plain_logger True (execute_macro 0 ?T plain_logger True) (env_of ?T ?g)
             (steps_of ?g) 0 [YStr ''cmd0''] (entered plain_logger ?a start))
        = Some (Returned, [(YStr ''cmd0'', None)])"
    by code_simp
  then obtain st4' where
    pre4': "run_commands ?T plain_logger True (execute_macro 0 ?T plain_logger True) (env_of ?T ?g)
             (steps_of ?g) 0 [YStr ''cmd0''] (entered plain_logger ?a start) = Some (Returned, st4')"
    and w4': "world st4' = [(YStr ''cmd0'', None)]"
    by auto
  let ?A = "after_step ?T plain_logger True (env_of ?T ?g) (steps_of ?g) (length [YStr ''cmd0'']) ?c st4'"
  note policy = failure_policy [OF entry wf4 steps4 pre4']
  from policy fails4 [of st4']
  have "run_commands ?T plain_logger True (execute_macro 0 ?T plain_logger True) (env_of ?T ?g)
            (steps_of ?g) 0 (steps_of ?g) (entered plain_logger ?a start)
          = run_commands ?T plain_logger True (execute_macro 0 ?T plain_logger True) (env_of ?T ?g)
            (steps_of ?g) (Suc (length [YStr ''cmd0''])) [YStr ''cmd2''] ?A"
    by blast
  moreover have "steps_of ?g = [YStr ''cmd0'', ?c, YStr ''cmd2'']"
    and "Suc (length [YStr ''cmd0'']) = 2"
    by simp_all
  ultimately
  have skipped: "run_commands ?T plain_logger True (execute_macro 0 ?T plain_logger True) (env_of ?T ?g)
            [YStr ''cmd0'', ?c, YStr ''cmd2''] 0 [YStr ''cmd0'', ?c, YStr ''cmd2'']
            (entered plain_logger ?a start)
          = run_commands ?T plain_logger True (execute_macro 0 ?T plain_logger True) (env_of ?T ?g)
            [YStr ''cmd0'', ?c, YStr ''cmd2''] 2 [YStr ''cmd2''] ?A"
    by (simp only:)
  from policy [THEN conjunct2, THEN conjunct1, rule_format,
         of "[(''call'', YStr ''gone'')]" "''gone''"]
  have "?A = warn plain_logger (SkippingMissingCall (YStr ''gone''))
               (error plain_logger (MacroNotFound (YStr ''gone''))
                  (info plain_logger (CallingMacro (YStr ''gone'')) st4'))"
    by simp
  with w4' have "world ?A = [(YStr ''cmd0'', None)]"
    and "last (console ?A) = Print WARNING (SkippingMissingCall (YStr ''gone''))"
    by simp_all
  with skipped
  have gone_on: "\<exists>st2. run_commands ?T plain_logger True (execute_macro 0 ?T plain_logger True)
                (env_of ?T ?g) [YStr ''cmd0'', ?c, YStr ''cmd2''] 0
                [YStr ''cmd0'', ?c, YStr ''cmd2''] (entered plain_logger ?a start)
              = run_commands ?T plain_logger True (execute_macro 0 ?T plain_logger True)
                (env_of ?T ?g) [YStr ''cmd0'', ?c, YStr ''cmd2''] 2 [YStr ''cmd2''] st2
            \<and> world st2 = [(YStr ''cmd0'', None)]
            \<and> last (console st2) = Print WARNING (SkippingMissingCall (YStr ''gone''))"
    by blast
  have run_off: "map_option (\<lambda>(how, s). (how, world s, last (console s)))
        (execute_macro 1 ?T plain_logger False ?a ?g start)
       = Some (Exited 1, [(YStr ''cmd0'', None)], Print ERROR (MacroNotFound (YStr ''gone'')))"
    by code_simp
  have run_on: "map_option (\<lambda>(how, s). (how, world s))
        (execute_macro 1 ?T plain_logger True ?a ?g start)
       = Some (Returned, [(YStr ''cmd0'', None), (YStr ''cmd2'', None)])"
    by code_simp
  have run_nested: "map_option (\<lambda>(how, s). (how, world s))
        (execute_macro 2 ?T plain_logger False ?a ?e start)
       = Some (Exited 3, [(YStr ''cmd1'', None)])"
    by code_simp
  from off on all nested fails4 [of "entered plain_logger ?a start"] gone_off gone_on run_off run_on
    run_nested
  show ?thesis by blast
qed

subsection \<open>Resolving a call\<close>

text \<open>
  C9. A Macro Call step \<^verbatim>\<open>{call: called}\<close> is resolved against the file as it is at that
  moment, whatever mapping the run was started with. If the file is absent then, the loop
  ends with an uncaught \<^verbatim>\<open>FileNotFoundError\<close> after the line \<^verbatim>\<open>Calling macro\<close>, with either
  value of continue-on-error and with no \<^verbatim>\<open>not found\<close> report. If the mapping that the file
  holds then defines the called name, the definition that is run is the one found there,
  and the loop goes on after it or ends as it ended. If that mapping does not define the
  name, \<^verbatim>\<open>not found\<close> is reported and the continue-on-error policy applies. The first two
  hold as well of the call of \<^verbatim>\<open>execute_macro\<close> on a well-formed definition whose earlier
  steps have completed and have left the file in this state.
\<close>

theorem nested_call_rereads_file:
  assumes call: "command = YDict kvs" "map_of kvs ''call'' = Some called"
  shows "(read_file S (world st) = Missing \<longrightarrow>
            run_commands S lg coe nested env commands i (command # rest) st
              = Some (Raised FileNotFoundError, info lg (CallingMacro called) st))
       \<and> (\<forall>n macros def.
             called = YStr n
             \<and> document_macros (read_file S (world st)) = Some macros
             \<and> map_of macros n = Some def \<longrightarrow>
            run_commands S lg coe nested env commands i (command # rest) st
              = (case nested called def (info lg (CallingMacro called) st) of
                   None \<Rightarrow> None
                 | Some (Returned, st2) \<Rightarrow>
                     run_commands S lg coe nested env commands (Suc i) rest st2
                 | Some (how, st2) \<Rightarrow> Some (how, st2)))
       \<and> (\<forall>n macros.
             called = YStr n
             \<and> document_macros (read_file S (world st)) = Some macros
             \<and> map_of macros n = None \<longrightarrow>
            run_commands S lg coe nested env commands i (command # rest) st
              = (if coe
                 then run_commands S lg coe nested env commands (Suc i) rest
                        (warn lg (SkippingMissingCall called)
                           (error lg (MacroNotFound called) (info lg (CallingMacro called) st)))
                 else Some (Exited 1,
                        error lg (MacroNotFound called) (info lg (CallingMacro called) st))))
       \<and> (\<forall>name depth d pre st0.
             hashable name \<and> hkey name \<notin> executed_macros st0 \<and> \<not> malformed d
             \<and> steps_of d = pre @ command # rest
             \<and> run_commands S lg coe (execute_macro depth S lg coe) (env_of S d)
                   (steps_of d) 0 pre (entered lg name st0) = Some (Returned, st)
             \<and> read_file S (world st) = Missing \<longrightarrow>
            execute_macro (Suc depth) S lg coe name d st0
              = Some (Raised FileNotFoundError, info lg (CallingMacro called) st))
       \<and> (\<forall>name depth d pre st0 n macros def.
             hashable name \<and> hkey name \<notin> executed_macros st0 \<and> \<not> malformed d
             \<and> steps_of d = pre @ command # rest
             \<and> run_commands S lg coe (execute_macro depth S lg coe) (env_of S d)
                   (steps_of d) 0 pre (entered lg name st0) = Some (Returned, st)
             \<and> called = YStr n
             \<and> document_macros (read_file S (world st)) = Some macros
             \<and> map_of macros n = Some def \<longrightarrow>
            run_commands S lg coe (execute_macro depth S lg coe) (env_of S d) (steps_of d) 0
                (steps_of d) (entered lg name st0)
              = (case execute_macro depth S lg coe called def (info lg (CallingMacro called) st) of
                   None \<Rightarrow> None
                 | Some (Returned, st2) \<Rightarrow>
                     run_commands S lg coe (execute_macro depth S lg coe) (env_of S d) (steps_of d)
                       (Suc (length pre)) rest st2
                 | Some (how, st2) \<Rightarrow> Some (how, st2)))"
proof -
  from call have is_call: "call_of command = Some called"
    by (simp add: call_of_def)
  have absent: "run_commands S lg coe nested env commands i (command # rest) st
              = Some (Raised FileNotFoundError, info lg (CallingMacro called) st)"
    if "read_file S (world st) = Missing" for nested env commands i
    using is_call that by (simp add: load_macros_def)
  have found: "run_commands S lg coe nested env commands i (command # rest) st
              = (case nested called def (info lg (CallingMacro called) st) of
                   None \<Rightarrow> None
                 | Some (Returned, st2) \<Rightarrow>
                     run_commands S lg coe nested env commands (Suc i) rest st2
                 | Some (how, st2) \<Rightarrow> Some (how, st2))"
    if "called = YStr n \<and> document_macros (read_file S (world st)) = Some macros
          \<and> map_of macros n = Some def"
    for nested env commands i n macros "def"
  proof -
    from that have n: "called = YStr n"
      and doc: "document_macros (read_file S (world st)) = Some macros"
      and defined: "map_of macros n = Some def"
      by blast+
    from defined have "n \<in> set (map fst macros)"
      by (metis map_of_eq_None_iff option.distinct(1) set_map)
    moreover from doc defined have "load_macros (read_file S (world st)) = Inr (YDict macros)"
      by (auto simp: document_macros_def load_macros_def
               split: file_state.splits yaml.splits option.splits)
    ultimately have "\<exists>all_macros. load_macros (read_file S (world st)) = Inr all_macros
                       \<and> macro_missing all_macros (YStr n) = Inr False
                       \<and> py_getitem all_macros (YStr n) = Inr def"
      using defined by (simp add: macro_missing_def py_in_def py_getitem_def)
    with is_call n show ?thesis
      by auto
  qed
  have unknown: "run_commands S lg coe nested env commands i (command # rest) st
              = (if coe
                 then run_commands S lg coe nested env commands (Suc i) rest
                        (warn lg (SkippingMissingCall called)
                           (error lg (MacroNotFound called) (info lg (CallingMacro called) st)))
                 else Some (Exited 1,
                        error lg (MacroNotFound called) (info lg (CallingMacro called) st)))"
    if "called = YStr n \<and> document_macros (read_file S (world st)) = Some macros
          \<and> map_of macros n = None"
    for n macros
  proof -
    from that have n: "called = YStr n"
      and doc: "document_macros (read_file S (world st)) = Some macros"
      and none: "map_of macros n = None"
      by blast+
    from none have "n \<notin> set (map fst macros)"
      by (simp add: map_of_eq_None_iff)
    with doc have "\<exists>all_macros. load_macros (read_file S (world st)) = Inr all_macros
                     \<and> macro_missing all_macros (YStr n) = Inr True"
      by (auto simp: document_macros_def load_macros_def macro_missing_def py_in_def
               split: file_state.splits yaml.splits option.splits)
    with is_call n show ?thesis
      by (auto simp: Let_def)
  qed
  have raised: "execute_macro (Suc depth) S lg coe name d st0
              = Some (Raised FileNotFoundError, info lg (CallingMacro called) st)"
    if a: "hashable name \<and> hkey name \<notin> executed_macros st0 \<and> \<not> malformed d
             \<and> steps_of d = pre @ command # rest
             \<and> run_commands S lg coe (execute_macro depth S lg coe) (env_of S d)
                   (steps_of d) 0 pre (entered lg name st0) = Some (Returned, st)
             \<and> read_file S (world st) = Missing"
    for name depth d pre st0
  proof -
    from a have entry: "hashable name" "hkey name \<notin> executed_macros st0" "\<not> malformed d"
      and steps: "steps_of d = pre @ command # rest"
      and pre: "run_commands S lg coe (execute_macro depth S lg coe) (env_of S d)
                   (steps_of d) 0 pre (entered lg name st0) = Some (Returned, st)"
      and missing: "read_file S (world st) = Missing"
      by blast+
    from absent [OF missing]
    have "run_commands S lg coe (execute_macro depth S lg coe) (env_of S d) (steps_of d)
            (0 + length pre) (command # rest) st
          = Some (Raised FileNotFoundError, info lg (CallingMacro called) st)" .
    from loop_abort [OF pre this] steps
    have "run_commands S lg coe (execute_macro depth S lg coe) (env_of S d) (steps_of d) 0
            (steps_of d) (entered lg name st0)
          = Some (Raised FileNotFoundError, info lg (CallingMacro called) st)"
      by simp
    then show ?thesis
      using execute_macro_abort [OF entry] by blast
  qed
  have resolved: "run_commands S lg coe (execute_macro depth S lg coe) (env_of S d) (steps_of d) 0
                (steps_of d) (entered lg name st0)
              = (case execute_macro depth S lg coe called def (info lg (CallingMacro called) st) of
                   None \<Rightarrow> None
                 | Some (Returned, st2) \<Rightarrow>
                     run_commands S lg coe (execute_macro depth S lg coe) (env_of S d) (steps_of d)
                       (Suc (length pre)) rest st2
                 | Some (how, st2) \<Rightarrow> Some (how, st2))"
    if a: "hashable name \<and> hkey name \<notin> executed_macros st0 \<and> \<not> malformed d
             \<and> steps_of d = pre @ command # rest
             \<and> run_commands S lg coe (execute_macro depth S lg coe) (env_of S d)
                   (steps_of d) 0 pre (entered lg name st0) = Some (Returned, st)
             \<and> called = YStr n
             \<and> document_macros (read_file S (world st)) = Some macros
             \<and> map_of macros n = Some def"
    for name depth d pre st0 n macros "def"
  proof -
    from a have steps: "steps_of d = pre @ command # rest"
      and pre: "run_commands S lg coe (execute_macro depth S lg coe) (env_of S d)
                   (steps_of d) 0 pre (entered lg name st0) = Some (Returned, st)"
      and doc: "called = YStr n \<and> document_macros (read_file S (world st)) = Some macros
                  \<and> map_of macros n = Some def"
      by blast+
    have "run_commands S lg coe (execute_macro depth S lg coe) (env_of S d) (steps_of d) 0
            (steps_of d) (entered lg name st0)
          = run_commands S lg coe (execute_macro depth S lg coe) (env_of S d) (steps_of d)
              (length pre) (command # rest) st"
      using loop_step [OF pre, of "command # rest"] steps by simp
    with found [OF doc] show ?thesis
      by simp
  qed
  from absent found unknown raised resolved show ?thesis
    by (intro conjI allI impI)
qed

text \<open>
  Three instances, in each of which the file defines \<^verbatim>\<open>a\<close> and \<^verbatim>\<open>b\<close> when the run starts
  and the second step of \<^verbatim>\<open>a\<close> calls \<^verbatim>\<open>b\<close>. The first command of \<^verbatim>\<open>a\<close> deletes the file
  and continue-on-error is on: the run ends with \<^verbatim>\<open>FileNotFoundError\<close>. The file defines
  \<^verbatim>\<open>b\<close> as \<^verbatim>\<open>echo old\<close> and the first command of \<^verbatim>\<open>a\<close> replaces it by one that defines \<^verbatim>\<open>b\<close>
  as \<^verbatim>\<open>echo new\<close>: the commands run are the copy and \<^verbatim>\<open>echo new\<close>. The first command of
  \<^verbatim>\<open>a\<close> replaces the file by one that does not define \<^verbatim>\<open>b\<close>: the run reports \<^verbatim>\<open>not found\<close>
  and exits with 1.
\<close>

theorem nested_call_rereads_file_witness:
  "\<not> malformed (YDict [(''commands'', YList [YStr ''rm runner.yaml'',
                                           YDict [(''call'', YStr ''b'')], YStr ''echo done''])])
   \<and> (\<exists>st. run_commands (volatile_sys Missing) plain_logger True (execute_macro 1 (volatile_sys Missing) plain_logger True)
              (base_env (volatile_sys Missing))
              [YStr ''rm runner.yaml'', YDict [(''call'', YStr ''b'')], YStr ''echo done''] 0
              [YStr ''rm runner.yaml'']
              (entered plain_logger (YStr ''a'')
                 \<lparr>world = ((Parsed (YDict [(''a'', YDict [(''commands'', YList [YStr ''rm runner.yaml'',
                       YDict [(''call'', YStr ''b'')], YStr ''echo done''])]),
                   (''b'', YList [YStr ''echo b''])])), []), executed_macros = {}, console = [], logfile = []\<rparr>)
            = Some (Returned, st)
        \<and> read_file (volatile_sys Missing) (world st) = Missing
        \<and> run_commands (volatile_sys Missing) plain_logger True (execute_macro 1 (volatile_sys Missing) plain_logger True)
              (base_env (volatile_sys Missing))
              [YStr ''rm runner.yaml'', YDict [(''call'', YStr ''b'')], YStr ''echo done''] 1
              [YDict [(''call'', YStr ''b'')], YStr ''echo done''] st
            = Some (Raised FileNotFoundError, info plain_logger (CallingMacro (YStr ''b'')) st)
        \<and> execute_macro 2 (volatile_sys Missing) plain_logger True (YStr ''a'')
             (YDict [(''commands'', YList [YStr ''rm runner.yaml'',
                                           YDict [(''call'', YStr ''b'')], YStr ''echo done''])])
             \<lparr>world = ((Parsed (YDict [(''a'', YDict [(''commands'', YList [YStr ''rm runner.yaml'',
                       YDict [(''call'', YStr ''b'')], YStr ''echo done''])]),
                   (''b'', YList [YStr ''echo b''])])), []), executed_macros = {}, console = [], logfile = []\<rparr>
            = Some (Raised FileNotFoundError, info plain_logger (CallingMacro (YStr ''b'')) st))
   \<and> map_option (\<lambda>(how, s). (how, world s))
        (execute_macro 2 (volatile_sys Missing) plain_logger True (YStr ''a'')
           (YDict [(''commands'', YList [YStr ''rm runner.yaml'',
                                           YDict [(''call'', YStr ''b'')], YStr ''echo done''])])
           \<lparr>world = ((Parsed (YDict [(''a'', YDict [(''commands'', YList [YStr ''rm runner.yaml'',
                       YDict [(''call'', YStr ''b'')], YStr ''echo done''])]),
                   (''b'', YList [YStr ''echo b''])])), []), executed_macros = {}, console = [], logfile = []\<rparr>)
       = Some (Raised FileNotFoundError, (Missing, [YStr ''rm runner.yaml'']))
   \<and> document_macros
        (Parsed (YDict [(''a'', YList [YStr ''cp other.yaml runner.yaml'',
                                        YDict [(''call'', YStr ''b'')]]),
                   (''b'', YList [YStr ''echo old''])]))
       = Some [(''a'', YList [YStr ''cp other.yaml runner.yaml'', YDict [(''call'', YStr ''b'')]]),
               (''b'', YList [YStr ''echo old''])]
   \<and> (\<exists>st. run_commands (volatile_sys (Parsed (YDict [(''b'', YList [YStr ''echo new''])])))
              plain_logger False
              (execute_macro 1 (volatile_sys (Parsed (YDict [(''b'', YList [YStr ''echo new''])])))
                 plain_logger False)
              (base_env (volatile_sys (Parsed (YDict [(''b'', YList [YStr ''echo new''])]))))
              [YStr ''cp other.yaml runner.yaml'', YDict [(''call'', YStr ''b'')]] 0
              [YStr ''cp other.yaml runner.yaml'']
              (entered plain_logger (YStr ''a'')
                 \<lparr>world = ((Parsed (YDict [(''a'', YList [YStr ''cp other.yaml runner.yaml'',
                                        YDict [(''call'', YStr ''b'')]]),
                   (''b'', YList [YStr ''echo old''])])), []), executed_macros = {}, console = [], logfile = []\<rparr>)
            = Some (Returned, st)
        \<and> document_macros
             (read_file (volatile_sys (Parsed (YDict [(''b'', YList [YStr ''echo new''])]))) (world st))
            = Some [(''b'', YList [YStr ''echo new''])]
        \<and> run_commands (volatile_sys (Parsed (YDict [(''b'', YList [YStr ''echo new''])])))
              plain_logger False
              (execute_macro 1 (volatile_sys (Parsed (YDict [(''b'', YList [YStr ''echo new''])])))
                 plain_logger False)
              (base_env (volatile_sys (Parsed (YDict [(''b'', YList [YStr ''echo new''])]))))
              [YStr ''cp other.yaml runner.yaml'', YDict [(''call'', YStr ''b'')]] 1
              [YDict [(''call'', YStr ''b'')]] st
            = (case execute_macro 1 (volatile_sys (Parsed (YDict [(''b'', YList [YStr ''echo new''])])))
                      plain_logger False (YStr ''b'') (YList [YStr ''echo new''])
                      (info plain_logger (CallingMacro (YStr ''b'')) st) of
                 None \<Rightarrow> None
               | Some (Returned, st2) \<Rightarrow>
                   run_commands (volatile_sys (Parsed (YDict [(''b'', YList [YStr ''echo new''])])))
                     plain_logger False
                     (execute_macro 1 (volatile_sys (Parsed (YDict [(''b'', YList [YStr ''echo new''])])))
                        plain_logger False)
                     (base_env (volatile_sys (Parsed (YDict [(''b'', YList [YStr ''echo new''])]))))
                     [YStr ''cp other.yaml runner.yaml'', YDict [(''call'', YStr ''b'')]] (Suc 1) [] st2
               | Some (how, st2) \<Rightarrow> Some (how, st2))
        \<and> run_commands (volatile_sys (Parsed (YDict [(''b'', YList [YStr ''echo new''])])))
              plain_logger False
              (execute_macro 1 (volatile_sys (Parsed (YDict [(''b'', YList [YStr ''echo new''])])))
                 plain_logger False)
              (base_env (volatile_sys (Parsed (YDict [(''b'', YList [YStr ''echo new''])]))))
              [YStr ''cp other.yaml runner.yaml'', YDict [(''call'', YStr ''b'')]] 0
              [YStr ''cp other.yaml runner.yaml'', YDict [(''call'', YStr ''b'')]]
              (entered plain_logger (YStr ''a'')
                 \<lparr>world = ((Parsed (YDict [(''a'', YList [YStr ''cp other.yaml runner.yaml'',
                                        YDict [(''call'', YStr ''b'')]]),
                   (''b'', YList [YStr ''echo old''])])), []), executed_macros = {}, console = [], logfile = []\<rparr>)
            = (case execute_macro 1 (volatile_sys (Parsed (YDict [(''b'', YList [YStr ''echo new''])])))
                      plain_logger False (YStr ''b'') (YList [YStr ''echo new''])
                      (info plain_logger (CallingMacro (YStr ''b'')) st) of
                 None \<Rightarrow> None
               | Some (Returned, st2) \<Rightarrow> Some (Returned, st2)
               | Some (how, st2) \<Rightarrow> Some (how, st2)))
   \<and> map_option (\<lambda>(how, s). (how, world s))
        (execute_macro 2 (volatile_sys (Parsed (YDict [(''b'', YList [YStr ''echo new''])])))
           plain_logger False (YStr ''a'')
           (YList [YStr ''cp other.yaml runner.yaml'', YDict [(''call'', YStr ''b'')]])
           \<lparr>world = ((Parsed (YDict [(''a'', YList [YStr ''cp other.yaml runner.yaml'',
                                        YDict [(''call'', YStr ''b'')]]),
                   (''b'', YList [YStr ''echo old''])])), []), executed_macros = {}, console = [], logfile = []\<rparr>)
       = Some (Returned, ((Parsed (YDict [(''b'', YList [YStr ''echo new''])])),
                          [YStr ''cp other.yaml runner.yaml'', YStr ''echo new'']))
   \<and> (\<exists>st. run_commands (volatile_sys (Parsed (YDict [(''c'', YList [YStr ''echo c''])])))
              plain_logger False
              (execute_macro 1 (volatile_sys (Parsed (YDict [(''c'', YList [YStr ''echo c''])])))
                 plain_logger False)
              (base_env (volatile_sys (Parsed (YDict [(''c'', YList [YStr ''echo c''])]))))
              [YStr ''cp other.yaml runner.yaml'', YDict [(''call'', YStr ''b'')]] 0
              [YStr ''cp other.yaml runner.yaml'']
              (entered plain_logger (YStr ''a'')
                 \<lparr>world = ((Parsed (YDict [(''a'', YList [YStr ''cp other.yaml runner.yaml'',
                                        YDict [(''call'', YStr ''b'')]]),
                   (''b'', YList [YStr ''echo old''])])), []), executed_macros = {}, console = [], logfile = []\<rparr>)
            = Some (Returned, st)
        \<and> document_macros
             (read_file (volatile_sys (Parsed (YDict [(''c'', YList [YStr ''echo c''])]))) (world st))
            = Some [(''c'', YList [YStr ''echo c''])]
        \<and> run_commands (volatile_sys (Parsed (YDict [(''c'', YList [YStr ''echo c''])])))
              plain_logger False
              (execute_macro 1 (volatile_sys (Parsed (YDict [(''c'', YList [YStr ''echo c''])])))
                 plain_logger False)
              (base_env (volatile_sys (Parsed (YDict [(''c'', YList [YStr ''echo c''])]))))
              [YStr ''cp other.yaml runner.yaml'', YDict [(''call'', YStr ''b'')]] 1
              [YDict [(''call'', YStr ''b'')]] st
            = Some (Exited 1, error plain_logger (MacroNotFound (YStr ''b''))
                                (info plain_logger (CallingMacro (YStr ''b'')) st)))
   \<and> map_option (\<lambda>(how, s). (how, world s, last (console s)))
        (execute_macro 2 (volatile_sys (Parsed (YDict [(''c'', YList [YStr ''echo c''])])))
           plain_logger False (YStr ''a'')
           (YList [YStr ''cp other.yaml runner.yaml'', YDict [(''call'', YStr ''b'')]])
           \<lparr>world = ((Parsed (YDict [(''a'', YList [YStr ''cp other.yaml runner.yaml'',
                                        YDict [(''call'', YStr ''b'')]]),
                   (''b'', YList [YStr ''echo old''])])), []), executed_macros = {}, console = [], logfile = []\<rparr>)
       = Some (Exited 1, ((Parsed (YDict [(''c'', YList [YStr ''echo c''])])),
                          [YStr ''cp other.yaml runner.yaml'']),
               Print ERROR (MacroNotFound (YStr ''b'')))"
proof -
  \<comment> \<open>the file is deleted before the call\<close>
  let ?V = "volatile_sys Missing"
  let ?c = "YDict [(''call'', YStr ''b'')]"
  let ?d = "YDict [(''commands'', YList [YStr ''rm runner.yaml'', ?c, YStr ''echo done''])]"
  let ?doc = "Parsed (YDict [(''a'', ?d), (''b'', YList [YStr ''echo b''])])"
  let ?st0 = "\<lparr>world = (?doc, []), executed_macros = {}, console = [], logfile = []\<rparr>
                :: (file_state \<times> yaml list) state"
  have call: "?c = YDict [(''call'', YStr ''b'')]" "map_of [(''call'', YStr ''b'')] ''call'' = Some (YStr ''b'')"
    by simp_all
  have wf: "\<not> malformed ?d"
    by (simp add: malformed_def dict_get_def)
  have steps: "steps_of ?d = [YStr ''rm runner.yaml''] @ ?c # [YStr ''echo done'']"
    by (simp add: dict_get_def)
  have env: "env_of ?V ?d = base_env ?V"
    by (simp add: dict_get_def update_env_def)
  have "map_option (\<lambda>(how, s). (how, world s))
          (run_commands ?V plain_logger True (execute_macro 1 ?V plain_logger True) (base_env ?V)
              [YStr ''rm runner.yaml'', ?c, YStr ''echo done''] 0
              [YStr ''rm runner.yaml''] (entered plain_logger (YStr ''a'') ?st0))
        = Some (Returned, (Missing, [YStr ''rm runner.yaml'']))"
    by code_simp
  then obtain st where
    pre: "run_commands ?V plain_logger True (execute_macro 1 ?V plain_logger True) (base_env ?V)
              [YStr ''rm runner.yaml'', ?c, YStr ''echo done''] 0
              [YStr ''rm runner.yaml''] (entered plain_logger (YStr ''a'') ?st0) = Some (Returned, st)"
    and w: "world st = (Missing, [YStr ''rm runner.yaml''])"
    by auto
  have m: "read_file ?V (world st) = Missing"
    using w by (simp add: volatile_sys_def)
  have h: "hashable (YStr ''a'')" "hkey (YStr ''a'') \<notin> executed_macros ?st0"
    by simp_all
  have prems: "hashable (YStr ''a'') \<and> hkey (YStr ''a'') \<notin> executed_macros ?st0 \<and> \<not> malformed ?d
             \<and> steps_of ?d = [YStr ''rm runner.yaml''] @ ?c # [YStr ''echo done'']
             \<and> run_commands ?V plain_logger True (execute_macro 1 ?V plain_logger True)
                   (env_of ?V ?d) (steps_of ?d) 0 [YStr ''rm runner.yaml'']
                   (entered plain_logger (YStr ''a'') ?st0) = Some (Returned, st)
             \<and> read_file ?V (world st) = Missing"
    unfolding env steps using h wf pre m by simp
  note deleted_file = nested_call_rereads_file [OF call, where S = ?V and st = st
         and lg = plain_logger and coe = True and rest = "[YStr ''echo done'']"]
  from deleted_file [where nested = "execute_macro 1 ?V plain_logger True" and env = "base_env ?V"
         and commands = "[YStr ''rm runner.yaml'', ?c, YStr ''echo done'']" and i = 1,
         THEN conjunct1, rule_format, OF m]
  have step: "run_commands ?V plain_logger True (execute_macro 1 ?V plain_logger True) (base_env ?V)
              [YStr ''rm runner.yaml'', ?c, YStr ''echo done''] 1 [?c, YStr ''echo done''] st
            = Some (Raised FileNotFoundError, info plain_logger (CallingMacro (YStr ''b'')) st)" .
  from deleted_file [THEN conjunct2, THEN conjunct2, THEN conjunct2, THEN conjunct1, rule_format,
         OF prems]
  have "execute_macro (Suc 1) ?V plain_logger True (YStr ''a'') ?d ?st0
            = Some (Raised FileNotFoundError, info plain_logger (CallingMacro (YStr ''b'')) st)" .
  then have "execute_macro 2 ?V plain_logger True (YStr ''a'') ?d ?st0
            = Some (Raised FileNotFoundError, info plain_logger (CallingMacro (YStr ''b'')) st)"
    by (simp only: numeral_2_eq_2 One_nat_def)
  with pre m step
  have deleted: "\<exists>st. run_commands ?V plain_logger True (execute_macro 1 ?V plain_logger True)
              (base_env ?V) [YStr ''rm runner.yaml'', ?c, YStr ''echo done''] 0
              [YStr ''rm runner.yaml''] (entered plain_logger (YStr ''a'') ?st0) = Some (Returned, st)
        \<and> read_file ?V (world st) = Missing
        \<and> run_commands ?V plain_logger True (execute_macro 1 ?V plain_logger True) (base_env ?V)
              [YStr ''rm runner.yaml'', ?c, YStr ''echo done''] 1 [?c, YStr ''echo done''] st
            = Some (Raised FileNotFoundError, info plain_logger (CallingMacro (YStr ''b'')) st)
        \<and> execute_macro 2 ?V plain_logger True (YStr ''a'') ?d ?st0
            = Some (Raised FileNotFoundError, info plain_logger (CallingMacro (YStr ''b'')) st)"
    by blast
  have ran_deleted: "map_option (\<lambda>(how, s). (how, world s))
        (execute_macro 2 ?V plain_logger True (YStr ''a'') ?d ?st0)
       = Some (Raised FileNotFoundError, (Missing, [YStr ''rm runner.yaml'']))"
    by code_simp
  \<comment> \<open>the file is replaced before the call\<close>
  let ?new = "Parsed (YDict [(''b'', YList [YStr ''echo new''])])"
  let ?W = "volatile_sys ?new"
  let ?e = "YList [YStr ''cp other.yaml runner.yaml'', ?c]"
  let ?old = "Parsed (YDict [(''a'', ?e), (''b'', YList [YStr ''echo old''])])"
  let ?st1 = "\<lparr>world = (?old, []), executed_macros = {}, console = [], logfile = []\<rparr>
                :: (file_state \<times> yaml list) state"
  have started: "document_macros ?old = Some [(''a'', ?e), (''b'', YList [YStr ''echo old''])]"
    by (simp add: document_macros_def)
  have wf2: "\<not> malformed ?e"
    by (simp add: malformed_def)
  have "map_option (\<lambda>(how, s). (how, world s))
          (run_commands ?W plain_logger False (execute_macro 1 ?W plain_logger False) (base_env ?W)
              [YStr ''cp other.yaml runner.yaml'', ?c] 0
              [YStr ''cp other.yaml runner.yaml''] (entered plain_logger (YStr ''a'') ?st1))
        = Some (Returned, (?new, [YStr ''cp other.yaml runner.yaml'']))"
    by code_simp
  then obtain st' where
    pre2: "run_commands ?W plain_logger False (execute_macro 1 ?W plain_logger False) (base_env ?W)
              [YStr ''cp other.yaml runner.yaml'', ?c] 0
              [YStr ''cp other.yaml runner.yaml''] (entered plain_logger (YStr ''a'') ?st1)
            = Some (Returned, st')"
    and w2: "world st' = (?new, [YStr ''cp other.yaml runner.yaml''])"
    by auto
  have doc2: "document_macros (read_file ?W (world st')) = Some [(''b'', YList [YStr ''echo new''])]"
    using w2 by (simp add: volatile_sys_def document_macros_def)
  have defined: "YStr ''b'' = YStr ''b''
             \<and> document_macros (read_file ?W (world st')) = Some [(''b'', YList [YStr ''echo new''])]
             \<and> map_of [(''b'', YList [YStr ''echo new''])] ''b'' = Some (YList [YStr ''echo new''])"
    using doc2 by simp
  have h2: "hashable (YStr ''a'')" "hkey (YStr ''a'') \<notin> executed_macros ?st1"
    by simp_all
  have prems2: "hashable (YStr ''a'') \<and> hkey (YStr ''a'') \<notin> executed_macros ?st1 \<and> \<not> malformed ?e
             \<and> steps_of ?e = [YStr ''cp other.yaml runner.yaml''] @ ?c # []
             \<and> run_commands ?W plain_logger False (execute_macro 1 ?W plain_logger False)
                   (env_of ?W ?e) (steps_of ?e) 0 [YStr ''cp other.yaml runner.yaml'']
                   (entered plain_logger (YStr ''a'') ?st1) = Some (Returned, st')
             \<and> YStr ''b'' = YStr ''b''
             \<and> document_macros (read_file ?W (world st')) = Some [(''b'', YList [YStr ''echo new''])]
             \<and> map_of [(''b'', YList [YStr ''echo new''])] ''b'' = Some (YList [YStr ''echo new''])"
    using h2 wf2 pre2 doc2 by simp
  note replaced_file = nested_call_rereads_file [OF call, where S = ?W and st = st'
         and lg = plain_logger and coe = False and rest = "[]"]
  from replaced_file [where nested = "execute_macro 1 ?W plain_logger False" and env = "base_env ?W"
         and commands = "[YStr ''cp other.yaml runner.yaml'', ?c]" and i = 1,
         THEN conjunct2, THEN conjunct1, rule_format, OF defined]
  have step2: "run_commands ?W plain_logger False (execute_macro 1 ?W plain_logger False) (base_env ?W)
              [YStr ''cp other.yaml runner.yaml'', ?c] 1 [?c] st'
            = (case execute_macro 1 ?W plain_logger False (YStr ''b'') (YList [YStr ''echo new''])
                      (info plain_logger (CallingMacro (YStr ''b'')) st') of
                 None \<Rightarrow> None
               | Some (Returned, st2) \<Rightarrow>
                   run_commands ?W plain_logger False (execute_macro 1 ?W plain_logger False)
                     (base_env ?W) [YStr ''cp other.yaml runner.yaml'', ?c] (Suc 1) [] st2
               | Some (how, st2) \<Rightarrow> Some (how, st2))" .
  from replaced_file [THEN conjunct2, THEN conjunct2, THEN conjunct2, THEN conjunct2, rule_format,
         OF prems2]
  have loop2: "run_commands ?W plain_logger False (execute_macro 1 ?W plain_logger False) (base_env ?W)
              [YStr ''cp other.yaml runner.yaml'', ?c] 0
              [YStr ''cp other.yaml runner.yaml'', ?c] (entered plain_logger (YStr ''a'') ?st1)
            = (case execute_macro 1 ?W plain_logger False (YStr ''b'') (YList [YStr ''echo new''])
                      (info plain_logger (CallingMacro (YStr ''b'')) st') of
                 None \<Rightarrow> None
               | Some (Returned, st2) \<Rightarrow> Some (Returned, st2)
               | Some (how, st2) \<Rightarrow> Some (how, st2))"
    by (simp cong: option.case_cong prod.case_cong outcome.case_cong)
  from pre2 doc2 step2 loop2
  have replaced: "\<exists>st. run_commands ?W plain_logger False (execute_macro 1 ?W plain_logger False)
              (base_env ?W) [YStr ''cp other.yaml runner.yaml'', ?c] 0
              [YStr ''cp other.yaml runner.yaml''] (entered plain_logger (YStr ''a'') ?st1)
            = Some (Returned, st)
        \<and> document_macros (read_file ?W (world st)) = Some [(''b'', YList [YStr ''echo new''])]
        \<and> run_commands ?W plain_logger False (execute_macro 1 ?W plain_logger False) (base_env ?W)
              [YStr ''cp other.yaml runner.yaml'', ?c] 1 [?c] st
            = (case execute_macro 1 ?W plain_logger False (YStr ''b'') (YList [YStr ''echo new''])
                      (info plain_logger (CallingMacro (YStr ''b'')) st) of
                 None \<Rightarrow> None
               | Some (Returned, st2) \<Rightarrow>
                   run_commands ?W plain_logger False (execute_macro 1 ?W plain_logger False)
                     (base_env ?W) [YStr ''cp other.yaml runner.yaml'', ?c] (Suc 1) [] st2
               | Some (how, st2) \<Rightarrow> Some (how, st2))
        \<and> run_commands ?W plain_logger False (execute_macro 1 ?W plain_logger False) (base_env ?W)
              [YStr ''cp other.yaml runner.yaml'', ?c] 0
              [YStr ''cp other.yaml runner.yaml'', ?c] (entered plain_logger (YStr ''a'') ?st1)
            = (case execute_macro 1 ?W plain_logger False (YStr ''b'') (YList [YStr ''echo new''])
                      (info plain_logger (CallingMacro (YStr ''b'')) st) of
                 None \<Rightarrow> None
               | Some (Returned, st2) \<Rightarrow> Some (Returned, st2)
               | Some (how, st2) \<Rightarrow> Some (how, st2))"
    by blast
  have ran: "map_option (\<lambda>(how, s). (how, world s))
        (execute_macro 2 ?W plain_logger False (YStr ''a'') ?e ?st1)
       = Some (Returned, (?new, [YStr ''cp other.yaml runner.yaml'', YStr ''echo new'']))"
    by code_simp
  \<comment> \<open>the file is replaced by one that does not define the called macro\<close>
  let ?nob = "Parsed (YDict [(''c'', YList [YStr ''echo c''])])"
  let ?X = "volatile_sys ?nob"
  have "map_option (\<lambda>(how, s). (how, world s))
          (run_commands ?X plain_logger False (execute_macro 1 ?X plain_logger False) (base_env ?X)
              [YStr ''cp other.yaml runner.yaml'', ?c] 0
              [YStr ''cp other.yaml runner.yaml''] (entered plain_logger (YStr ''a'') ?st1))
        = Some (Returned, (?nob, [YStr ''cp other.yaml runner.yaml'']))"
    by code_simp
  then obtain st'' where
    pre3: "run_commands ?X plain_logger False (execute_macro 1 ?X plain_logger False) (base_env ?X)
              [YStr ''cp other.yaml runner.yaml'', ?c] 0
              [YStr ''cp other.yaml runner.yaml''] (entered plain_logger (YStr ''a'') ?st1)
            = Some (Returned, st'')"
    and w3: "world st'' = (?nob, [YStr ''cp other.yaml runner.yaml''])"
    by auto
  have doc3: "document_macros (read_file ?X (world st'')) = Some [(''c'', YList [YStr ''echo c''])]"
    using w3 by (simp add: volatile_sys_def document_macros_def)
  have unknown: "YStr ''b'' = YStr ''b''
             \<and> document_macros (read_file ?X (world st'')) = Some [(''c'', YList [YStr ''echo c''])]
             \<and> map_of [(''c'', YList [YStr ''echo c''])] ''b'' = None"
    using doc3 by simp
  from nested_call_rereads_file [OF call, where S = ?X and st = st''
         and lg = plain_logger and coe = False and rest = "[]"
         and nested = "execute_macro 1 ?X plain_logger False" and env = "base_env ?X"
         and commands = "[YStr ''cp other.yaml runner.yaml'', ?c]" and i = 1,
         THEN conjunct2, THEN conjunct2, THEN conjunct1, rule_format, OF unknown]
  have step3: "run_commands ?X plain_logger False (execute_macro 1 ?X plain_logger False) (base_env ?X)
              [YStr ''cp other.yaml runner.yaml'', ?c] 1 [?c] st''
            = Some (Exited 1, error plain_logger (MacroNotFound (YStr ''b''))
                                (info plain_logger (CallingMacro (YStr ''b'')) st''))"
    by (simp only: if_False)
  from pre3 doc3 step3
  have removed: "\<exists>st. run_commands ?X plain_logger False (execute_macro 1 ?X plain_logger False)
              (base_env ?X) [YStr ''cp other.yaml runner.yaml'', ?c] 0
              [YStr ''cp other.yaml runner.yaml''] (entered plain_logger (YStr ''a'') ?st1)
            = Some (Returned, st)
        \<and> document_macros (read_file ?X (world st)) = Some [(''c'', YList [YStr ''echo c''])]
        \<and> run_commands ?X plain_logger False (execute_macro 1 ?X plain_logger False) (base_env ?X)
              [YStr ''cp other.yaml runner.yaml'', ?c] 1 [?c] st
            = Some (Exited 1, error plain_logger (MacroNotFound (YStr ''b''))
                                (info plain_logger (CallingMacro (YStr ''b'')) st))"
    by blast
  have ran_removed: "map_option (\<lambda>(how, s). (how, world s, last (console s)))
        (execute_macro 2 ?X plain_logger False (YStr ''a'') ?e ?st1)
       = Some (Exited 1, (?nob, [YStr ''cp other.yaml runner.yaml'']),
               Print ERROR (MacroNotFound (YStr ''b'')))"
    by code_simp
  from wf deleted ran_deleted started replaced ran removed ran_removed show ?thesis
    by blast
qed

subsection \<open>Steps that are neither a string nor a call\<close>

text \<open>
  C10. Validation does not look at the elements of \<^verbatim>\<open>commands\<close>: a bare sequence is
  always valid, and a structured definition is judged the same whatever the elements
  are. A step that is not a string and has no \<^verbatim>\<open>call\<close> key goes down the command branch
  of the loop; if the executor raises on it, the engine reports \<^verbatim>\<open>Error executing command\<close>
  and then exits with 1 or, under continue-on-error, warns and goes on: no validation
  error is involved.
\<close>

theorem step_elements_not_validated:
  "validate_macro_definition name (YList steps) = Inr True
   \<and> (map_of kvs ''commands'' = Some (YList steps) \<and> map_of kvs' ''commands'' = Some (YList steps')
        \<and> map_of kvs ''env'' = map_of kvs' ''env'' \<longrightarrow>
      validate_macro_definition name (YDict kvs) = validate_macro_definition name (YDict kvs'))
   \<and> (\<not> is_str command \<and> call_of command = None \<longrightarrow>
      run_commands S lg coe nested env commands i (command # rest) st =
        (case exec_command S lg coe env commands i command st of
           (Some code, st1) \<Rightarrow> Some (Exited code, st1)
         | (None, st1) \<Rightarrow> run_commands S lg coe nested env commands (Suc i) rest st1))
   \<and> (\<not> is_str command \<and> call_of command = None \<and> \<not> dry_run lg
        \<and> run_cmd S command env (world st) = (Failed e, w) \<longrightarrow>
      (let st3 = error lg (ErrorExecuting command e)
                   (log_command S lg command [] e
                      ((info lg (RunningCommand (command_index commands i command)
                                   (total_commands commands) command) st)\<lparr>world := w\<rparr>))
       in run_commands S lg coe nested env commands i (command # rest) st =
            (if coe
             then run_commands S lg coe nested env commands (Suc i) rest
                    (warn lg (ContinuingAfterException command) st3)
             else Some (Exited 1, st3))))"
proof (intro conjI impI)
  show "validate_macro_definition name (YList steps) = Inr True"
    by (simp add: validate_macro_definition_def)
next
  assume "map_of kvs ''commands'' = Some (YList steps) \<and> map_of kvs' ''commands'' = Some (YList steps')
        \<and> map_of kvs ''env'' = map_of kvs' ''env''"
  then show "validate_macro_definition name (YDict kvs) = validate_macro_definition name (YDict kvs')"
    by (simp add: validate_macro_definition_def)
next
  assume "\<not> is_str command \<and> call_of command = None"
  then show "run_commands S lg coe nested env commands i (command # rest) st =
        (case exec_command S lg coe env commands i command st of
           (Some code, st1) \<Rightarrow> Some (Exited code, st1)
         | (None, st1) \<Rightarrow> run_commands S lg coe nested env commands (Suc i) rest st1)"
    by simp
next
  assume "\<not> is_str command \<and> call_of command = None \<and> \<not> dry_run lg
        \<and> run_cmd S command env (world st) = (Failed e, w)"
  then show "(let st3 = error lg (ErrorExecuting command e)
                   (log_command S lg command [] e
                      ((info lg (RunningCommand (command_index commands i command)
                                   (total_commands commands) command) st)\<lparr>world := w\<rparr>))
       in run_commands S lg coe nested env commands i (command # rest) st =
            (if coe
             then run_commands S lg coe nested env commands (Suc i) rest
                    (warn lg (ContinuingAfterException command) st3)
             else Some (Exited 1, st3)))"
    by (simp add: exec_command_def Let_def)
qed

text \<open>
  An instance: the step \<^verbatim>\<open>42\<close>, which the executor refuses, followed by a command.
\<close>

theorem step_elements_not_validated_witness:
  "validate_macro_definition (YStr ''a'') (YList [YInt 42]) = Inr True
   \<and> validate_macro_definition (YStr ''a'') (YDict [(''commands'', YList [YInt 42])])
       = validate_macro_definition (YStr ''a'') (YDict [(''commands'', YList [YStr ''echo''])])
   \<and> \<not> is_str (YInt 42) \<and> call_of (YInt 42) = None \<and> \<not> dry_run plain_logger
   \<and> run_cmd (demo_sys Missing (\<lambda>c. if is_str c then Completed 0 [] [] else Failed ''TypeError'') [])
        (YInt 42) Map.empty (world start) = (Failed ''TypeError'', [(YInt 42, None)])
   \<and> map_option (\<lambda>(how, s). (how, world s, console s))
        (run_commands (demo_sys Missing (\<lambda>c. if is_str c then Completed 0 [] [] else Failed ''TypeError'') [])
          plain_logger False (\<lambda>c d s. None) Map.empty [YInt 42, YStr ''echo''] 0
          [YInt 42, YStr ''echo''] start)
       = Some (Exited 1, [(YInt 42, None)],
               [Print INFO (RunningCommand 1 2 (YInt 42)),
                Print ERROR (ErrorExecuting (YInt 42) ''TypeError'')])
   \<and> map_option (\<lambda>(how, s). (how, world s, console s))
        (run_commands (demo_sys Missing (\<lambda>c. if is_str c then Completed 0 [] [] else Failed ''TypeError'') [])
          plain_logger True (\<lambda>c d s. None) Map.empty [YInt 42, YStr ''echo''] 0
          [YInt 42, YStr ''echo''] start)
       = Some (Returned, [(YInt 42, None), (YStr ''echo'', None)],
               [Print INFO (RunningCommand 1 2 (YInt 42)),
                Print ERROR (ErrorExecuting (YInt 42) ''TypeError''),
                Print WARNING (ContinuingAfterException (YInt 42)),
                Print INFO (RunningCommand 2 2 (YStr ''echo'')),
                Print INFO (CommandCompleted (YStr ''echo''))])"
proof -
  let ?S = "demo_sys Missing (\<lambda>c. if is_str c then Completed 0 [] [] else Failed ''TypeError'') []"
  let ?nested = "\<lambda>(c::yaml) (d::yaml) (s::(yaml \<times> yaml option) list state).
                   (None :: (outcome \<times> (yaml \<times> yaml option) list state) option)"
  let ?cs = "[YInt 42, YStr ''echo'']"
  have side: "\<not> is_str (YInt 42) \<and> call_of (YInt 42) = None \<and> \<not> dry_run plain_logger
        \<and> run_cmd ?S (YInt 42) Map.empty (world start) = (Failed ''TypeError'', [(YInt 42, None)])"
    by (simp add: call_of_def plain_logger_def demo_sys_def start_def)
  have env: "map_of [(''commands'', YList [YInt 42])] ''commands'' = Some (YList [YInt 42])
        \<and> map_of [(''commands'', YList [YStr ''echo''])] ''commands'' = Some (YList [YStr ''echo''])
        \<and> map_of [(''commands'', YList [YInt 42])] ''env''
            = map_of [(''commands'', YList [YStr ''echo''])] ''env''"
    by simp
  note T = step_elements_not_validated [where name = "YStr ''a''" and steps = "[YInt 42]"
      and kvs = "[(''commands'', YList [YInt 42])]" and kvs' = "[(''commands'', YList [YStr ''echo''])]"
      and steps' = "[YStr ''echo'']" and command = "YInt 42" and S = ?S and lg = plain_logger
      and nested = ?nested and env = Map.empty and commands = ?cs and i = 0
      and rest = "[YStr ''echo'']" and st = start and e = "''TypeError''" and w = "[(YInt 42, None)]"]
  from T [where coe = False] side
  have stop: "run_commands ?S plain_logger False ?nested Map.empty ?cs 0 ?cs start
      = Some (Exited 1, error plain_logger (ErrorExecuting (YInt 42) ''TypeError'')
                   (log_command ?S plain_logger (YInt 42) [] ''TypeError''
                      ((info plain_logger (RunningCommand (command_index ?cs 0 (YInt 42))
                                   (total_commands ?cs) (YInt 42)) start)\<lparr>world := [(YInt 42, None)]\<rparr>)))"
    by (simp add: Let_def)
  have stop': "map_option (\<lambda>(how, s). (how, world s, console s))
        (run_commands ?S plain_logger False ?nested Map.empty ?cs 0 ?cs start)
       = Some (Exited 1, [(YInt 42, None)],
               [Print INFO (RunningCommand 1 2 (YInt 42)),
                Print ERROR (ErrorExecuting (YInt 42) ''TypeError'')])"
    unfolding stop by code_simp
  have go: "map_option (\<lambda>(how, s). (how, world s, console s))
        (run_commands ?S plain_logger True ?nested Map.empty ?cs 0 ?cs start)
       = Some (Returned, [(YInt 42, None), (YStr ''echo'', None)],
               [Print INFO (RunningCommand 1 2 (YInt 42)),
                Print ERROR (ErrorExecuting (YInt 42) ''TypeError''),
                Print WARNING (ContinuingAfterException (YInt 42)),
                Print INFO (RunningCommand 2 2 (YStr ''echo'')),
                Print INFO (CommandCompleted (YStr ''echo''))])"
    by code_simp
  from T [where coe = False] env side stop' go show ?thesis by simp
qed

subsection \<open>The log block of a command\<close>

lemma split_lines_nonempty [simp]: "split_lines s \<noteq> []"
  by (induction s) (auto split: list.splits)

lemma split_lines_newline:
  "split_lines (a @ CHR 10 # b) = split_lines a @ split_lines b"
  by (induction a) (auto split: list.splits)

lemma split_lines_no_newline:
  "CHR 10 \<notin> set a \<Longrightarrow> split_lines (a @ b) = (a @ hd (split_lines b)) # tl (split_lines b)"
  by (induction a) (auto split: list.splits)

lemma tagged_same:
  "tagged ts tag (line_prefix ts tag @ l)"
  by (simp add: tagged_def)

lemma take_common_prefix: "take (length (p @ q)) (p @ r) = p @ take (length q) r"
  by simp

lemma tagged_other:
  assumes "take (length (tag @ '': '')) (tag' @ '': '' @ l) \<noteq> tag @ '': ''"
  shows "\<not> tagged ts tag (line_prefix ts tag' @ l)"
proof -
  let ?p = "''['' @ ts @ ''] ''"
  have l: "line_prefix ts tag = ?p @ (tag @ '': '')"
    and r: "line_prefix ts tag' @ l = ?p @ (tag' @ '': '' @ l)"
    by (simp_all add: line_prefix_def)
  have "take (length (line_prefix ts tag)) (line_prefix ts tag' @ l)
          = ?p @ take (length (tag @ '': '')) (tag' @ '': '' @ l)"
    unfolding l r by (rule take_common_prefix)
  with assms show ?thesis
    unfolding tagged_def l by simp
qed

lemma has_line_headed:
  assumes "CHR 10 \<notin> set ts" "CHR 10 \<notin> set tag'"
  shows "has_line ts tag (line_prefix ts tag' @ body) \<longleftrightarrow>
           tagged ts tag (line_prefix ts tag' @ hd (split_lines body))
           \<or> list_ex (tagged ts tag) (tl (split_lines body))"
proof -
  have "CHR 10 \<notin> set (line_prefix ts tag')"
    using assms by (auto simp: line_prefix_def)
  then show ?thesis
    by (simp add: has_line_def split_lines_no_newline)
qed

lemma list_ex_tl: "list_ex P (tl xs) \<Longrightarrow> list_ex P xs"
  by (cases xs) auto

lemma has_line_append:
  "has_line ts tag (a @ CHR 10 # b) \<longleftrightarrow> has_line ts tag a \<or> has_line ts tag b"
  by (simp add: has_line_def split_lines_newline)


lemma blocks_append [simp]: "blocks (xs @ ys) = blocks xs @ blocks ys"
  by (induction xs rule: blocks.induct) simp_all

lemma blocks_log [simp]:
  "blocks (logfile (info lg m st)) = blocks (logfile st)"
  "blocks (logfile (error lg m st)) = blocks (logfile st)"
  "blocks (logfile (warn lg m st)) = blocks (logfile st)"
  by (simp_all add: info_def error_def warn_def emit_def)

lemma blocks_log_command [simp]:
  "blocks (logfile (log_command S lg c out err st)) =
     (if file_handle lg then blocks (logfile st) @ [log_entry (now S (world st)) (py_str S c) out err]
      else blocks (logfile st))"
  by (simp add: log_command_def)

lemma exec_command_block:
  assumes "\<not> dry_run lg"
    and "run_cmd S command env (world st) = (Completed rc out err, w)"
  shows "blocks (logfile (snd (exec_command S lg coe env commands i command st))) =
           (if file_handle lg
            then blocks (logfile st) @
                   [log_entry (now S w) (py_str S command)
                      (if strip out \<noteq> [] then strip out else ''(no output)'') (strip err)]
            else blocks (logfile st))"
  using assms by (simp add: exec_command_def Let_def)

lemma log_entry_shape:
  "log_entry ts c out err =
     (if out = [] then
        (if err = [] then line_prefix ts ''EXECUTED'' @ c
         else (line_prefix ts ''EXECUTED'' @ c) @ CHR 10 # (line_prefix ts ''ERROR'' @ err))
      else
        (if err = [] then (line_prefix ts ''EXECUTED'' @ c) @ CHR 10 # (line_prefix ts ''OUTPUT'' @ out)
         else ((line_prefix ts ''EXECUTED'' @ c) @ CHR 10 # (line_prefix ts ''OUTPUT'' @ out))
                @ CHR 10 # (line_prefix ts ''ERROR'' @ err)))"
  by (simp add: log_entry_def line_prefix_def)

lemma log_entry_start:
  "\<exists>rest. log_entry ts c out err = (line_prefix ts ''EXECUTED'' @ c) @ rest"
  by (simp add: log_entry_def line_prefix_def)

lemma has_line_log_entry:
  "has_line ts tag (log_entry ts c out err) \<longleftrightarrow>
     has_line ts tag (line_prefix ts ''EXECUTED'' @ c)
     \<or> (out \<noteq> [] \<and> has_line ts tag (line_prefix ts ''OUTPUT'' @ out))
     \<or> (err \<noteq> [] \<and> has_line ts tag (line_prefix ts ''ERROR'' @ err))"
  unfolding log_entry_shape by (simp only: has_line_append split: if_splits) simp

lemma has_line_own:
  assumes "CHR 10 \<notin> set ts" "CHR 10 \<notin> set tag"
  shows "has_line ts tag (line_prefix ts tag @ body)"
  using has_line_headed [OF assms(1) assms(2), of tag body] tagged_same by simp

lemma has_line_foreign:
  assumes "CHR 10 \<notin> set ts" "CHR 10 \<notin> set tag'"
    and "\<And>l. take (length (tag @ '': '')) (tag' @ '': '' @ l) \<noteq> tag @ '': ''"
    and "has_line ts tag (line_prefix ts tag' @ body)"
  shows "has_line ts tag body"
proof -
  from assms(4) have "list_ex (tagged ts tag) (tl (split_lines body))"
    using has_line_headed [OF assms(1) assms(2), of tag body] tagged_other [OF assms(3)] by simp
  then show ?thesis
    unfolding has_line_def by (rule list_ex_tl)
qed

lemma placeholder_untagged: "\<not> has_line ts tag ''(no output)''"
  by (simp add: has_line_def tagged_def line_prefix_def)

text \<open>
  C5, as the code has it. The executor has completed a command and the log file is open.
  The engine appends one block: it starts with the \<^verbatim>\<open>EXECUTED:\<close> line and the command
  text, and it always has an \<^verbatim>\<open>OUTPUT:\<close> line, which carries the captured stdout
  stripped of surrounding whitespace, or \<^verbatim>\<open>(no output)\<close> when that is empty. It has an
  \<^verbatim>\<open>ERROR:\<close> line exactly when the captured stderr, stripped, is not empty. Lines are
  told by the prefix with the block's own timestamp, which holds no line break; the
  command text and the stripped stdout are taken not to contain a line that starts with
  the \<^verbatim>\<open>ERROR:\<close> prefix themselves.
\<close>

theorem log_block_lines:
  assumes "\<not> dry_run lg" and "file_handle lg"
    and run: "run_cmd S command env (world st) = (Completed rc out err, w)"
    and ts: "CHR 10 \<notin> set (now S w)"
    and cmd: "\<not> has_line (now S w) ''ERROR'' (py_str S command)"
    and out: "\<not> has_line (now S w) ''ERROR'' (strip out)"
  shows "\<exists>b. blocks (logfile (snd (exec_command S lg coe env commands i command st)))
               = blocks (logfile st) @ [b]
           \<and> b = log_entry (now S w) (py_str S command)
                    (if strip out \<noteq> [] then strip out else ''(no output)'') (strip err)
           \<and> take (length (line_prefix (now S w) ''EXECUTED'' @ py_str S command)) b
               = line_prefix (now S w) ''EXECUTED'' @ py_str S command
           \<and> has_line (now S w) ''EXECUTED'' b
           \<and> has_line (now S w) ''OUTPUT'' b
           \<and> (has_line (now S w) ''ERROR'' b \<longleftrightarrow> strip err \<noteq> [])"
proof -
  let ?ts = "now S w"
  let ?out = "if strip out \<noteq> [] then strip out else ''(no output)''"
  let ?b = "log_entry ?ts (py_str S command) ?out (strip err)"
  have nonempty: "?out \<noteq> []" by simp
  have out': "\<not> has_line ?ts ''ERROR'' ?out"
    using out placeholder_untagged by simp
  have b: "blocks (logfile (snd (exec_command S lg coe env commands i command st)))
               = blocks (logfile st) @ [?b]"
    using exec_command_block [OF assms(1) run] assms(2) by simp
  have start: "take (length (line_prefix ?ts ''EXECUTED'' @ py_str S command)) ?b
               = line_prefix ?ts ''EXECUTED'' @ py_str S command"
  proof -
    obtain rest where "?b = (line_prefix ?ts ''EXECUTED'' @ py_str S command) @ rest"
      using log_entry_start by blast
    moreover have "take (length p) (p @ rest) = p" for p :: string
      by simp
    ultimately show ?thesis by (simp only:)
  qed
  have l_exec: "has_line ?ts ''EXECUTED'' ?b"
    unfolding has_line_log_entry using has_line_own [OF ts, of "''EXECUTED''"] by simp
  have l_out: "has_line ?ts ''OUTPUT'' ?b"
    unfolding has_line_log_entry using has_line_own [OF ts, of "''OUTPUT''"] nonempty by simp
  have e1: "\<not> has_line ?ts ''ERROR'' (line_prefix ?ts ''EXECUTED'' @ py_str S command)"
    using has_line_foreign [OF ts, of "''EXECUTED''" "''ERROR''" "py_str S command"] cmd by auto
  have e2: "\<not> has_line ?ts ''ERROR'' (line_prefix ?ts ''OUTPUT'' @ ?out)"
    using has_line_foreign [OF ts, of "''OUTPUT''" "''ERROR''" ?out] out' by auto
  have e3: "has_line ?ts ''ERROR'' (line_prefix ?ts ''ERROR'' @ strip err)"
    using has_line_own [OF ts, of "''ERROR''"] by simp
  have l_err: "has_line ?ts ''ERROR'' ?b \<longleftrightarrow> strip err \<noteq> []"
    unfolding has_line_log_entry using e1 e2 e3 by blast
  from b start l_exec l_out l_err show ?thesis by blast
qed

text \<open>
  An instance: stdout \<^verbatim>\<open>" hello "\<close> and stderr \<^verbatim>\<open>"warn"\<close>.
\<close>

theorem log_block_lines_witness:
  "\<not> dry_run file_logger \<and> file_handle file_logger
   \<and> run_cmd (demo_sys Missing (\<lambda>_. Completed 0 '' hello '' ''warn'') []) (YStr ''echo hello'')
        Map.empty (world start)
       = (Completed 0 '' hello '' ''warn'', [(YStr ''echo hello'', None)])
   \<and> CHR 10 \<notin> set (now (demo_sys Missing (\<lambda>_. Completed 0 '' hello '' ''warn'') [])
                        [(YStr ''echo hello'', None)])
   \<and> \<not> has_line ''2024-01-01 00:00:00'' ''ERROR'' ''echo hello''
   \<and> \<not> has_line ''2024-01-01 00:00:00'' ''ERROR'' (strip '' hello '')
   \<and> (\<exists>b. blocks (logfile (snd (exec_command (demo_sys Missing (\<lambda>_. Completed 0 '' hello '' ''warn'') [])
                   file_logger False Map.empty [YStr ''echo hello''] 0 (YStr ''echo hello'') start)))
               = blocks (logfile start) @ [b]
           \<and> b = ''[2024-01-01 00:00:00] EXECUTED: echo hello'' @ [CHR 10]
                    @ ''[2024-01-01 00:00:00] OUTPUT: hello'' @ [CHR 10]
                    @ ''[2024-01-01 00:00:00] ERROR: warn''
           \<and> has_line ''2024-01-01 00:00:00'' ''EXECUTED'' b
           \<and> has_line ''2024-01-01 00:00:00'' ''OUTPUT'' b
           \<and> (has_line ''2024-01-01 00:00:00'' ''ERROR'' b \<longleftrightarrow> strip ''warn'' \<noteq> []))"
proof -
  let ?S = "demo_sys Missing (\<lambda>_. Completed 0 '' hello '' ''warn'') []"
  let ?w = "[(YStr ''echo hello'', None :: yaml option)]"
  have h1: "\<not> dry_run file_logger" and h2: "file_handle file_logger"
    by (simp_all add: file_logger_def)
  have run: "run_cmd ?S (YStr ''echo hello'') Map.empty (world start)
       = (Completed 0 '' hello '' ''warn'', ?w)"
    by (simp add: demo_sys_def start_def)
  have now: "now ?S ?w = ''2024-01-01 00:00:00''"
    by (simp add: demo_sys_def)
  have ts: "CHR 10 \<notin> set (now ?S ?w)"
    unfolding now by simp
  have str: "py_str ?S (YStr ''echo hello'') = ''echo hello''"
    by (simp add: py_str_def)
  have cmd: "\<not> has_line (now ?S ?w) ''ERROR'' (py_str ?S (YStr ''echo hello''))"
    unfolding now str by code_simp
  have out: "\<not> has_line (now ?S ?w) ''ERROR'' (strip '' hello '')"
    unfolding now by code_simp
  have entry: "log_entry ''2024-01-01 00:00:00'' ''echo hello''
                    (if strip '' hello '' \<noteq> [] then strip '' hello '' else ''(no output)'')
                    (strip ''warn'')
               = ''[2024-01-01 00:00:00] EXECUTED: echo hello'' @ [CHR 10]
                    @ ''[2024-01-01 00:00:00] OUTPUT: hello'' @ [CHR 10]
                    @ ''[2024-01-01 00:00:00] ERROR: warn''"
    by code_simp
  from log_block_lines [OF h1 h2 run ts cmd out, where coe = False
         and commands = "[YStr ''echo hello'']" and i = 0]
  have "\<exists>b. blocks (logfile (snd (exec_command ?S file_logger False Map.empty
                   [YStr ''echo hello''] 0 (YStr ''echo hello'') start)))
               = blocks (logfile start) @ [b]
           \<and> b = ''[2024-01-01 00:00:00] EXECUTED: echo hello'' @ [CHR 10]
                    @ ''[2024-01-01 00:00:00] OUTPUT: hello'' @ [CHR 10]
                    @ ''[2024-01-01 00:00:00] ERROR: warn''
           \<and> has_line ''2024-01-01 00:00:00'' ''EXECUTED'' b
           \<and> has_line ''2024-01-01 00:00:00'' ''OUTPUT'' b
           \<and> (has_line ''2024-01-01 00:00:00'' ''ERROR'' b \<longleftrightarrow> strip ''warn'' \<noteq> [])"
    unfolding now str entry by blast
  with h1 h2 run ts cmd out show ?thesis
    unfolding now str by blast
qed

text \<open>
  C5 as stated fails: a command that writes nothing to stdout and a single blank to
  stderr gets an \<^verbatim>\<open>OUTPUT:\<close> line and no \<^verbatim>\<open>ERROR:\<close> line.
\<close>

theorem log_block_counterexample:
  "run_cmd (demo_sys Missing (\<lambda>_. Completed 0 [] '' '') []) (YStr ''true'') Map.empty (world start)
     = (Completed 0 [] '' '', [(YStr ''true'', None)])
   \<and> blocks (logfile (snd (exec_command (demo_sys Missing (\<lambda>_. Completed 0 [] '' '') [])
                               file_logger False Map.empty [YStr ''true''] 0 (YStr ''true'') start)))
      = [''[2024-01-01 00:00:00] EXECUTED: true'' @ [CHR 10]
           @ ''[2024-01-01 00:00:00] OUTPUT: (no output)'']
   \<and> has_line ''2024-01-01 00:00:00'' ''OUTPUT''
        (''[2024-01-01 00:00:00] EXECUTED: true'' @ [CHR 10]
           @ ''[2024-01-01 00:00:00] OUTPUT: (no output)'')
   \<and> \<not> has_line ''2024-01-01 00:00:00'' ''ERROR''
        (''[2024-01-01 00:00:00] EXECUTED: true'' @ [CHR 10]
           @ ''[2024-01-01 00:00:00] OUTPUT: (no output)'')"
  by code_simp

subsection \<open>Where the code departs from its specification\<close>

text \<open>
  C1. Every call of \<^verbatim>\<open>execute_macro\<close> builds its environment from a fresh copy of
  \<^verbatim>\<open>os.environ\<close> and its own \<^verbatim>\<open>env\<close>: the overrides of the calling macro are not handed
  down. Here \<^verbatim>\<open>a\<close> sets \<^verbatim>\<open>X\<close> to \<^verbatim>\<open>outer\<close> and calls \<^verbatim>\<open>b\<close>, which has no \<^verbatim>\<open>env\<close>; the
  ambient environment has no \<^verbatim>\<open>X\<close>. The command of \<^verbatim>\<open>b\<close> runs with \<^verbatim>\<open>X\<close> unset, where
  the specification has it inherit \<^verbatim>\<open>outer\<close>; the command of \<^verbatim>\<open>a\<close> itself sees \<^verbatim>\<open>outer\<close>.
\<close>

theorem child_env_drops_parent_overrides:
  "map_option (\<lambda>(how, s). (how, world s))
     (execute_macro 2
        (demo_sys
           (Parsed (YDict
              [(''a'', YDict [(''commands'', YList [YDict [(''call'', YStr ''b'')], YStr ''echo outer $X'']),
                              (''env'', YDict [(''X'', YStr ''outer'')])]),
               (''b'', YDict [(''commands'', YList [YStr ''echo inner $X''])])]))
           (\<lambda>_. Completed 0 [] []) [])
        plain_logger False (YStr ''a'')
        (YDict [(''commands'', YList [YDict [(''call'', YStr ''b'')], YStr ''echo outer $X'']),
                (''env'', YDict [(''X'', YStr ''outer'')])])
        start)
   = Some (Returned, [(YStr ''echo inner $X'', None), (YStr ''echo outer $X'', Some (YStr ''outer''))])"
  by code_simp

text \<open>
  C2. The chain of a circular call is \<^verbatim>\<open>' -> '.join(executed_macros)\<close> over a set, so it
  comes in the set's iteration order, not in call order. Here \<^verbatim>\<open>b\<close> calls \<^verbatim>\<open>a\<close>, \<^verbatim>\<open>a\<close> calls
  \<^verbatim>\<open>b\<close>, the run starts at \<^verbatim>\<open>b\<close>, and the set iterates \<^verbatim>\<open>a\<close> before \<^verbatim>\<open>b\<close>: the run ends
  with exit code 1 under continue-on-error, as specified, but the chain reads
  \<^verbatim>\<open>a -> b -> b\<close> where the calls were \<^verbatim>\<open>b -> a -> b\<close>.
\<close>

theorem cycle_chain_in_hash_order:
  "map_option (\<lambda>(how, s). (how, last (console s)))
     (execute_macro 3
        (demo_sys
           (Parsed (YDict [(''a'', YList [YDict [(''call'', YStr ''b'')]]),
                           (''b'', YList [YDict [(''call'', YStr ''a'')]])]))
           (\<lambda>_. Completed 0 [] []) [YStr ''a'', YStr ''b''])
        plain_logger True (YStr ''b'')
        (YList [YDict [(''call'', YStr ''a'')]])
        start)
   = Some (Exited 1, Print ERROR (CircularCall (YStr ''b'') ''a -> b -> b''))"
  by code_simp

text \<open>
  C4. The index shown for a command is the position of the first equal element of the
  list of commands. Here the same command appears twice: the total is 2 both times, and
  so is the index 1, where the second occurrence should show 2.
\<close>

theorem repeated_command_index:
  "map_option (\<lambda>(how, s). (how, console s))
     (execute_macro 1 (demo_sys Missing (\<lambda>_. Completed 0 [] []) []) dry_logger False (YStr ''twice'')
        (YList [YStr ''echo a'', YStr ''echo a'']) start)
   = Some (Returned,
       [Print INFO (ExecutingMacro (YStr ''twice'')),
        Print INFO (RunningCommand 1 2 (YStr ''echo a'')),
        Print INFO (DryRunWould (YStr ''echo a'')),
        Print INFO (RunningCommand 1 2 (YStr ''echo a'')),
        Print INFO (DryRunWould (YStr ''echo a'')),
        Print INFO (MacroCompleted (YStr ''twice''))])"
  by code_simp

end
